theory Spec2Isabelle
  imports Main "HOL-Library.Sublist"
begin

section \<open>Strings as the shell uses them\<close>

text \<open>
  Command lines are modelled as \<open>string\<close> (lists of 8-bit characters), one \<open>char\<close>
  per character of the line, and the model is one of ASCII command lines.  The string
  methods of the source that the shell calls are written out: \<open>trim\<close>,
  \<open>toLowerCase\<close> (character by character, on the letters \<open>A\<close> to \<open>Z\<close>),
  \<open>startsWith\<close> (the list order \<open>prefix\<close>), \<open>slice(0, n)\<close> (\<open>take\<close>),
  \<open>slice(n)\<close> (\<open>drop\<close>), \<open>split(" ")\<close>, \<open>join(" ")\<close> and \<open>findLast\<close>.
  Beyond ASCII the source's \<open>trim\<close> strips more characters (the no-break space and the
  other Unicode spaces) and its \<open>toLowerCase\<close> lowers more letters, some of them by
  context; such lines are outside the model.
\<close>

definition isWhitespace :: "char \<Rightarrow> bool" where
  "isWhitespace c \<longleftrightarrow> c \<in> set [CHR 0x09, CHR 0x0A, CHR 0x0B, CHR 0x0C, CHR 0x0D, CHR 0x20]"

definition trim :: "string \<Rightarrow> string" where
  "trim s = rev (dropWhile isWhitespace (rev (dropWhile isWhitespace s)))"

definition lowerChar :: "char \<Rightarrow> char" where
  "lowerChar c =
     (let n = (of_char c :: nat) in if 65 \<le> n \<and> n \<le> 90 then char_of (n + 32) else c)"

definition toLowerCase :: "string \<Rightarrow> string" where
  "toLowerCase s = map lowerChar s"

definition startsWith :: "string \<Rightarrow> string \<Rightarrow> bool" where
  "startsWith s p \<longleftrightarrow> prefix p s"

fun split_on :: "char \<Rightarrow> string \<Rightarrow> string list" where
  "split_on sep [] = [[]]"
| "split_on sep (c # cs) =
     (if c = sep then [] # split_on sep cs
      else (case split_on sep cs of
              [] \<Rightarrow> [[c]]
            | w # ws \<Rightarrow> (c # w) # ws))"

fun join_with :: "string \<Rightarrow> string list \<Rightarrow> string" where
  "join_with sep [] = []"
| "join_with sep [w] = w"
| "join_with sep (w # v # ws) = w @ sep @ join_with sep (v # ws)"

definition findLast :: "('a \<Rightarrow> bool) \<Rightarrow> 'a list \<Rightarrow> 'a option" where
  "findLast P xs = List.find P (rev xs)"

text \<open>
  \<open>x || ""\<close> on a value that is a string or \<open>undefined\<close>: the empty string is falsy
  as \<open>undefined\<close> is.
\<close>

definition or_empty :: "string option \<Rightarrow> string" where
  "or_empty r = (case r of None \<Rightarrow> [] | Some s \<Rightarrow> s)"

text \<open>What \<open>console.log\<close> prints for a value that is a string or \<open>undefined\<close>.\<close>

definition shown :: "string option \<Rightarrow> string" where
  "shown r = (case r of None \<Rightarrow> ''undefined'' | Some s \<Rightarrow> s)"

text \<open>A thrown or emitted \<open>Error\<close>: its name and its message.\<close>

datatype js_error = JsError string string

fun message :: "js_error \<Rightarrow> string" where
  "message (JsError n m) = m"

text \<open>The rendering of an error inside a template literal.\<close>

fun errorToString :: "js_error \<Rightarrow> string" where
  "errorToString (JsError n m) =
     (if n = [] then m else if m = [] then n else n @ '': '' @ m)"

section \<open>Data model\<close>

record CommandInfo =
  raw :: string
  executable :: string
  arguments :: "string list"
  cwd :: string

record OutputInfo =
  stderr :: string
  exitCode :: int
  error :: "string option"

record Metadata =
  user :: string
  platform :: string
  shell :: string

record CommandLog =
  entry_id :: string
  timestamp :: string
  command :: CommandInfo
  output_info :: OutputInfo
  metadata :: Metadata

datatype model = gemini | openAi

text \<open>
  The file \<open>~/.t_error\<close>.  The code that writes it is not among the sources, so its text
  is kept at the level of the JSON document it holds: \<open>Serialised l\<close> is the text
  \<open>JSON.stringify\<close> produces for the log \<open>l\<close>, on which \<open>JSON.parse\<close> gives
  \<open>l\<close> back, and \<open>Garbled e\<close> is any text on which \<open>JSON.parse\<close> throws
  \<open>e\<close>.  A file may also be missing, or exist and fail to be read.  A text that
  parses to something other than an array of entries has no value here: the source returns
  it as it is, under the type \<open>CommandLog[]\<close>.
\<close>

datatype json_text = Serialised "CommandLog list" | Garbled js_error

datatype log_file = Missing | Unreadable js_error | Readable json_text

definition JSON_stringify :: "CommandLog list \<Rightarrow> json_text" where
  "JSON_stringify l = Serialised l"

fun JSON_parse :: "json_text \<Rightarrow> js_error + CommandLog list" where
  "JSON_parse (Serialised l) = Inr l"
| "JSON_parse (Garbled e) = Inl e"

fun existsSync :: "log_file \<Rightarrow> bool" where
  "existsSync Missing = False"
| "existsSync (Unreadable e) = True"
| "existsSync (Readable t) = True"

text \<open>\<open>readFileSync\<close> on a file that exists; on a missing file it throws as well.\<close>

fun readFileSync :: "log_file \<Rightarrow> js_error + json_text" where
  "readFileSync Missing = Inl (JsError ''Error'' ''ENOENT: no such file or directory'')"
| "readFileSync (Unreadable e) = Inl e"
| "readFileSync (Readable t) = Inr t"

text \<open>Everything the shell does to the terminal, the clipboard and its helpers, in order.\<close>

datatype event =
    StdoutWrite string
  | CursorTo nat
  | OriginalRefreshLine
  | ConsoleLog string
  | ConsoleError string
  | Prompt
  | Question string
  | RlClose
  | SpinnerStart string
  | SpinnerStop
  | ClipboardWrite string
  | ShowHistory
  | CatFile string
  | ChangeDirectory string

text \<open>The events of a launched child that the shell listens to: a chunk of its stderr, an
  \<open>error\<close> event, and a \<open>close\<close> event with its code (\<open>None\<close> is \<open>null\<close>: the child
  was ended by a signal).\<close>

datatype child_event = StderrData string | ErrorEvent js_error | CloseEvent "int option"

text \<open>What \<open>spawn\<close> does: it throws, or it returns a child whose events arrive in the given
  order.  The source registers its handlers with no guard between them, so every event runs
  its handler, whatever came before.  A child that ran emits its stderr chunks and then one
  close event; a launch that failed emits an error event and then a close event with a
  negative code.\<close>

datatype spawn_result = SpawnThrows js_error | Spawned "child_event list"

text \<open>
  The answers of the world outside the module during one step: the libraries
  (\<open>strip-ansi\<close>, \<open>chalk\<close>), the prompt text and the message face of \<open>util.ts\<close>,
  the clock and the random source behind \<open>generateId\<close>, the process environment, the
  child process, the AI collaborators of \<open>gemini.ts\<close> and \<open>openai.ts\<close>, and the
  user's answer to the API key question.
\<close>

record env =
  stripAnsi :: "string \<Rightarrow> string"
  chalkGreen :: "string \<Rightarrow> string"
  chalkRed :: "string \<Rightarrow> string"
  formatPrompt :: string
  getErrorMessageFace :: string
  generateId :: string
  isoNow :: string
  userName :: string
  processPlatform :: string
  envSHELL :: "string option"
  cdTarget :: string
  spawnResult :: spawn_result
  generateCommandForHm :: "string option"
  generateCommandForHp :: "string \<Rightarrow> string option"
  betterMan :: "string \<Rightarrow> string option"
  generateCommandForHmOpenAi :: "string option"
  generateCommandForHpOpenAi :: "string \<Rightarrow> string option"
  betterManOpenAi :: "string \<Rightarrow> string option"
  keyAnswer :: string
  keyWriteError :: "js_error option"

text \<open>The module-level variables, the line editor's buffer and cursor, the files under the
  home directory, the working directory, and the trace of effects so far.\<close>

record shell_state =
  defaultModel :: model
  currentSuggestion :: string
  historicalCommands :: "string list"
  currentSessionCommands :: "string list"
  commandLog :: "CommandLog list"
  bypassRlLine :: bool
  suggestionAccepted :: bool
  rl_line :: string
  rl_cursor :: nat
  processCwd :: string
  historyFile :: "string list"
  errorFile :: log_file
  apiKeyFile :: "string option"
  trace :: "event list"

definition emit :: "shell_state \<Rightarrow> event \<Rightarrow> shell_state" where
  "emit st e = st\<lparr>trace := trace st @ [e]\<rparr>"

definition prompt :: "shell_state \<Rightarrow> shell_state" where
  "prompt st = emit st Prompt"

section \<open>Line editor overlay\<close>

definition DIM :: string where
  "DIM = CHR 0x1B # ''[2m''"

definition RESET :: string where
  "RESET = CHR 0x1B # ''[0m''"

definition clearLine :: string where
  "clearLine = CHR 0x0D # CHR 0x1B # ''[2K''"

definition rl_refreshLine :: "env \<Rightarrow> shell_state \<Rightarrow> shell_state" where
  "rl_refreshLine env st =
     (if currentSuggestion st \<noteq> [] \<and> (rl_line st \<noteq> [] \<or> bypassRlLine st) then
        let promptLength = length (stripAnsi env (formatPrompt env));
            currentLine = rl_line st;
            currentCursor = rl_cursor st;
            st1 = emit st (StdoutWrite clearLine);
            st2 = emit st1 (StdoutWrite (formatPrompt env));
            st3 = emit st2 (StdoutWrite (take currentCursor currentLine));
            st4 = (if startsWith (currentSuggestion st3) currentLine
                   then emit st3 (StdoutWrite (DIM @ drop currentCursor (currentSuggestion st3) @ RESET))
                   else st3);
            st5 = st4\<lparr>bypassRlLine := False\<rparr>
        in emit st5 (CursorTo (promptLength + currentCursor))
      else emit st OriginalRefreshLine)"

text \<open>The handler of the background worker's message.\<close>

definition onWorkerMessage :: "env \<Rightarrow> shell_state \<Rightarrow> string \<Rightarrow> shell_state" where
  "onWorkerMessage env st msg =
     rl_refreshLine env (st\<lparr>currentSuggestion := msg, bypassRlLine := True\<rparr>)"

section \<open>Suggestion engine\<close>

definition commonCommands :: "string list" where
  "commonCommands =
     [''git status'', ''git add .'', ''git commit -m'', ''git push origin'',
      ''npm install'', ''npm run dev'', ''ls -la'', ''cd ..'', ''docker ps'',
      ''docker-compose up'', ''history'', ''exit'']"

definition updateSuggestion :: "env \<Rightarrow> shell_state \<Rightarrow> string \<Rightarrow> shell_state" where
  "updateSuggestion env st input =
     (if trim input = [] then st\<lparr>currentSuggestion := []\<rparr>
      else
        let cursorPos = rl_cursor st;
            textBeforeCursor = take cursorPos input;
            searchText = toLowerCase textBeforeCursor;
            s1 = or_empty (findLast (\<lambda>cmd. startsWith (toLowerCase cmd) searchText)
                             (currentSessionCommands st));
            s2 = (if s1 = []
                  then or_empty (findLast (\<lambda>cmd. startsWith (toLowerCase cmd) searchText)
                                   (historicalCommands st))
                  else s1);
            s3 = (if s2 = []
                  then or_empty (findLast (\<lambda>cmd. startsWith (toLowerCase cmd) searchText)
                                   commonCommands)
                  else s2)
        in rl_refreshLine env (st\<lparr>currentSuggestion := or_empty (Some s3)\<rparr>))"

section \<open>Command log and history store\<close>

text \<open>Modelled from the spec: \<open>saveOutputToFile\<close> of \<open>util.ts\<close>, which is not among the
  sources.  Section 4.5: the flush serialises the full in-memory ordered sequence to the
  JSON file, overwriting it.  A failing write is not modelled.\<close>

definition saveOutputToFile :: "shell_state \<Rightarrow> CommandLog list \<Rightarrow> shell_state" where
  "saveOutputToFile st l = st\<lparr>errorFile := Readable (JSON_stringify l)\<rparr>"

text \<open>Modelled from the spec: \<open>saveToHistory\<close> of \<open>util.ts\<close>, which is not among the
  sources.  Sections 3 and 6: the history file is an append-only sequence of raw command
  strings, one per line.  A failing write is not modelled.\<close>

definition saveToHistory :: "shell_state \<Rightarrow> string \<Rightarrow> shell_state" where
  "saveToHistory st cmdline = st\<lparr>historyFile := historyFile st @ [cmdline]\<rparr>"

text \<open>Modelled from the spec: \<open>showHistory\<close> of \<open>util.ts\<close>, which is not among the
  sources: the built-in that shows the history, an effect on the terminal only.\<close>

definition showHistory :: "shell_state \<Rightarrow> shell_state" where
  "showHistory st = emit st ShowHistory"

text \<open>Modelled from the spec: \<open>catFile\<close> of \<open>util.ts\<close>, which is not among the sources:
  the built-in \<open>cat <path>\<close>, an effect on the terminal only.\<close>

definition catFile :: "shell_state \<Rightarrow> string \<Rightarrow> shell_state" where
  "catFile st cmdline = emit st (CatFile cmdline)"

text \<open>Modelled from the spec: \<open>changeDirectory\<close> of \<open>util.ts\<close>, which is not among the
  sources: the built-in \<open>cd <path>\<close>; the working directory it ends in is the
  environment's answer.\<close>

definition changeDirectory :: "env \<Rightarrow> shell_state \<Rightarrow> string \<Rightarrow> shell_state" where
  "changeDirectory env st cmdline = emit (st\<lparr>processCwd := cdTarget env\<rparr>) (ChangeDirectory cmdline)"

definition loadCommandErrors :: "log_file \<Rightarrow> CommandLog list \<times> event list" where
  "loadCommandErrors f =
     (if existsSync f then
        (case readFileSync f of
           Inl err \<Rightarrow> ([], [ConsoleError (''Error loading command history: '' @ errorToString err)])
         | Inr data \<Rightarrow>
             (case JSON_parse data of
                Inl err \<Rightarrow> ([], [ConsoleError (''Error loading command history: '' @ errorToString err)])
              | Inr l \<Rightarrow> (l, [])))
      else ([], []))"

text \<open>
  The module's initialisation, from the files it finds: the history lines that are not
  empty, the failure log, and the first prompt.  The banner and a failing read of the
  history file are left out.
\<close>

definition startup :: "string list \<Rightarrow> log_file \<Rightarrow> string option \<Rightarrow> string \<Rightarrow> shell_state" where
  "startup hist errf keyf dir =
     \<lparr>defaultModel = gemini,
      currentSuggestion = [],
      historicalCommands = filter (\<lambda>l. l \<noteq> []) hist,
      currentSessionCommands = [],
      commandLog = fst (loadCommandErrors errf),
      bypassRlLine = False,
      suggestionAccepted = False,
      rl_line = [],
      rl_cursor = 0,
      processCwd = dir,
      historyFile = hist,
      errorFile = errf,
      apiKeyFile = keyf,
      trace = snd (loadCommandErrors errf) @ [Prompt]\<rparr>"

section \<open>Execution engine\<close>

definition logInit :: "env \<Rightarrow> shell_state \<Rightarrow> string \<Rightarrow> CommandLog" where
  "logInit env st cmdline =
     (let parts = split_on CHR 0x20 cmdline; cmd = hd parts; args = tl parts in
      \<lparr>entry_id = generateId env,
       timestamp = isoNow env,
       command = \<lparr>raw = cmdline, executable = cmd, arguments = args, cwd = processCwd st\<rparr>,
       output_info = \<lparr>stderr = [], exitCode = 0, error = None\<rparr>,
       metadata = \<lparr>user = userName env, platform = processPlatform env,
                   shell = (case envSHELL env of
                              None \<Rightarrow> ''unknown''
                            | Some s \<Rightarrow> if s = [] then ''unknown'' else s)\<rparr>\<rparr>)"

text \<open>
  One launch.  Its log entry is a single object: the handlers assign to its fields, and
  \<open>commandLog.push(logEntry)\<close> stores a reference to it, so every reference to it in the
  log shows its latest fields.  Only the handlers of this launch hold the object, and they
  only push it at the end of the log; \<open>pushed\<close> counts how often they did, so the last
  \<open>pushed\<close> elements of the log are this entry.
\<close>

record launch =
  shellNow :: shell_state
  logEntry :: CommandLog
  pushed :: nat

text \<open>An assignment to \<open>logEntry.output\<close>, seen through every reference the log holds.\<close>

definition setOutput :: "launch \<Rightarrow> OutputInfo \<Rightarrow> launch" where
  "setOutput l out =
     (let e = (logEntry l)\<lparr>output_info := out\<rparr>;
          entries = commandLog (shellNow l)
      in l\<lparr>logEntry := e,
           shellNow := (shellNow l)\<lparr>commandLog :=
             take (length entries - pushed l) entries @ replicate (pushed l) e\<rparr>\<rparr>)"

text \<open>\<open>commandLog.push(logEntry)\<close>.\<close>

definition pushEntry :: "launch \<Rightarrow> launch" where
  "pushEntry l =
     l\<lparr>shellNow := (shellNow l)\<lparr>commandLog := commandLog (shellNow l) @ [logEntry l]\<rparr>,
       pushed := Suc (pushed l)\<rparr>"

text \<open>A step that touches the shell's state only.\<close>

definition onShell :: "(shell_state \<Rightarrow> shell_state) \<Rightarrow> launch \<Rightarrow> launch" where
  "onShell f l = l\<lparr>shellNow := f (shellNow l)\<rparr>"

text \<open>The handlers registered on the child, and the \<open>catch\<close> branch.\<close>

definition onStderrData :: "env \<Rightarrow> launch \<Rightarrow> string \<Rightarrow> launch" where
  "onStderrData env l chunk =
     (let l1 = onShell (\<lambda>st. emit st (ConsoleError chunk)) l
      in setOutput l1 ((output_info (logEntry l1))
           \<lparr>stderr := stderr (output_info (logEntry l1)) @ stripAnsi env chunk\<rparr>))"

definition onError :: "env \<Rightarrow> launch \<Rightarrow> js_error \<Rightarrow> launch" where
  "onError env l err =
     (let l1 = setOutput l ((output_info (logEntry l))\<lparr>error := Some (stripAnsi env (message err))\<rparr>);
          l2 = setOutput l1 ((output_info (logEntry l1))\<lparr>exitCode := 1\<rparr>);
          l3 = onShell (\<lambda>st. emit st (ConsoleError (chalkRed env (message err)))) l2;
          l4 = pushEntry l3;
          l5 = onShell (\<lambda>st. saveOutputToFile st (commandLog st)) l4
      in onShell prompt l5)"

definition onClose :: "launch \<Rightarrow> string \<Rightarrow> int option \<Rightarrow> launch" where
  "onClose l cmdline code =
     (let l1 = setOutput l ((output_info (logEntry l))
                 \<lparr>exitCode := (case code of None \<Rightarrow> 0 | Some c \<Rightarrow> if c = 0 then 0 else c)\<rparr>);
          l2 = (if code \<noteq> Some 0
                then onShell (\<lambda>st. saveOutputToFile st (commandLog st)) (pushEntry l1)
                else l1);
          l3 = onShell (\<lambda>st. saveToHistory st cmdline) l2;
          l4 = onShell (\<lambda>st. st\<lparr>currentSessionCommands := currentSessionCommands st @ [cmdline]\<rparr>) l3
      in onShell prompt l4)"

definition onSpawnException :: "env \<Rightarrow> launch \<Rightarrow> js_error \<Rightarrow> launch" where
  "onSpawnException env l err =
     (let l1 = setOutput l ((output_info (logEntry l))\<lparr>error := Some (message err)\<rparr>);
          l2 = setOutput l1 ((output_info (logEntry l1))\<lparr>exitCode := 1\<rparr>);
          l3 = onShell (\<lambda>st. emit st (ConsoleError
                 (chalkRed env (''Error executing command: '' @ errorToString err)))) l2;
          l4 = pushEntry l3;
          l5 = onShell (\<lambda>st. saveOutputToFile st (commandLog st)) l4
      in onShell prompt l5)"

fun handleEvent :: "env \<Rightarrow> string \<Rightarrow> launch \<Rightarrow> child_event \<Rightarrow> launch" where
  "handleEvent env cmdline l (StderrData chunk) = onStderrData env l chunk"
| "handleEvent env cmdline l (ErrorEvent err) = onError env l err"
| "handleEvent env cmdline l (CloseEvent code) = onClose l cmdline code"

definition startLaunch :: "env \<Rightarrow> shell_state \<Rightarrow> string \<Rightarrow> launch" where
  "startLaunch env st cmdline = \<lparr>shellNow = st, logEntry = logInit env st cmdline, pushed = 0\<rparr>"

definition runTheCommand :: "env \<Rightarrow> shell_state \<Rightarrow> string \<Rightarrow> shell_state" where
  "runTheCommand env st cmdline =
     shellNow
       (case spawnResult env of
          SpawnThrows err \<Rightarrow> onSpawnException env (startLaunch env st cmdline) err
        | Spawned events \<Rightarrow> foldl (handleEvent env cmdline) (startLaunch env st cmdline) events)"

section \<open>Built-in commands and the AI collaborators\<close>

definition keyFace1 :: string where
  "keyFace1 = [CHR 0xE2, CHR 0x9F, CHR 0xA8, CHR 0x20, CHR 0xC3, CHR 0x97, CHR 0xEF, CHR 0xB8,
               CHR 0xB5, CHR 0xC3, CHR 0x97, CHR 0x20, CHR 0xE2, CHR 0x9F, CHR 0xA9]"

definition keyFace2 :: string where
  "keyFace2 = [CHR 0xE2, CHR 0x9F, CHR 0xA8, CHR 0x20, CHR 0xE2, CHR 0x97, CHR 0xA0, CHR 0xEF,
               CHR 0xB8, CHR 0xB0, CHR 0xE2, CHR 0x97, CHR 0xA0, CHR 0x20, CHR 0xE2, CHR 0x9F,
               CHR 0xA9]"

definition keyFace3 :: string where
  "keyFace3 = [CHR 0xE2, CHR 0x9F, CHR 0xA8, CHR 0x20, CHR 0xE2, CHR 0x97, CHR 0xA0, CHR 0xEF,
               CHR 0xB8, CHR 0xB6, CHR 0xE2, CHR 0x97, CHR 0xA0, CHR 0x20, CHR 0xE2, CHR 0x9F,
               CHR 0xA9]"

definition keyFace4 :: string where
  "keyFace4 = [CHR 0xE2, CHR 0x9F, CHR 0xA8, CHR 0x20, CHR 0xE2, CHR 0x8A, CHR 0x97, CHR 0xEF,
               CHR 0xB8, CHR 0xB5, CHR 0xE2, CHR 0x8A, CHR 0x97, CHR 0x20, CHR 0xE2, CHR 0x9F,
               CHR 0xA9]"

text \<open>The four faces are the UTF-8 bytes of the source's message prefixes.\<close>

definition checkKey :: "env \<Rightarrow> shell_state \<Rightarrow> bool \<times> shell_state" where
  "checkKey env st =
     (if apiKeyFile st \<noteq> None then (True, st)
      else
        let st1 = emit st (ConsoleLog (keyFace1 @ '' API key not found.''));
            st2 = emit st1 (Question (keyFace2 @ '' Please enter your API key: ''));
            apiKey = trim (keyAnswer env)
        in if apiKey = [] then (False, emit st2 (ConsoleLog (keyFace1 @ '' API key cannot be empty'')))
           else (case keyWriteError env of
                   None \<Rightarrow>
                     (True, emit (st2\<lparr>apiKeyFile := Some apiKey\<rparr>)
                              (ConsoleLog (keyFace3 @ '' API key saved successfully!'')))
                 | Some err \<Rightarrow>
                     (False, emit st2 (ConsoleError (keyFace4 @ '' Error saving API key: ''
                                                      @ errorToString err)))))"

datatype ai_target = ToHm | ToHp

definition askGemini :: "env \<Rightarrow> ai_target \<Rightarrow> string option \<Rightarrow> string option" where
  "askGemini env to msg =
     (if to = ToHm then generateCommandForHm env
      else if to = ToHp \<and> msg \<noteq> None \<and> msg \<noteq> Some [] then generateCommandForHp env (or_empty msg)
      else None)"

definition askOpenAi :: "env \<Rightarrow> ai_target \<Rightarrow> string option \<Rightarrow> string option" where
  "askOpenAi env to msg =
     (if to = ToHm then generateCommandForHmOpenAi env
      else if to = ToHp \<and> msg \<noteq> None \<and> msg \<noteq> Some [] then generateCommandForHpOpenAi env (or_empty msg)
      else None)"

definition sentinel :: string where
  "sentinel = ''3d8a19a704''"

definition unableMessage :: "env \<Rightarrow> string" where
  "unableMessage env = getErrorMessageFace env @ '' Unable to process you request at the moment.''"

text \<open>What the \<open>hm\<close> and the \<open>hp\<close> branch both do with the collaborator's answer.\<close>

definition reportAnswer :: "env \<Rightarrow> shell_state \<Rightarrow> string option \<Rightarrow> shell_state" where
  "reportAnswer env st res =
     (if res = Some sentinel then emit st (ConsoleLog (unableMessage env))
      else
        let st1 = emit st (ConsoleLog (shown res)) in
        (case res of
           None \<Rightarrow> st1
         | Some r \<Rightarrow> if r \<noteq> [] then emit st1 (ClipboardWrite r) else st1))"

definition spinnerText :: string where
  "spinnerText = ''Processing data...''"

definition run_hm :: "env \<Rightarrow> shell_state \<Rightarrow> shell_state" where
  "run_hm env st =
     (case checkKey env st of (ok, st0) \<Rightarrow>
        prompt
          (if ok then
             let st1 = emit st0 (SpinnerStart spinnerText);
                 res = (if defaultModel st1 = gemini then askGemini env ToHm None
                        else askOpenAi env ToHm None);
                 st2 = emit st1 SpinnerStop
             in reportAnswer env st2 res
           else st0))"

definition run_hp :: "env \<Rightarrow> shell_state \<Rightarrow> string list \<Rightarrow> shell_state" where
  "run_hp env st args =
     (case checkKey env st of (ok, st0) \<Rightarrow>
        prompt
          (if ok then
             let sta = (if length args = 0
                        then prompt (emit st0 (ConsoleLog ''Hey you did not enter a message.''))
                        else st0);
                 msg = join_with '' '' args;
                 st1 = emit sta (SpinnerStart spinnerText);
                 res = (if defaultModel st1 = gemini then askGemini env ToHp (Some msg)
                        else askOpenAi env ToHp (Some msg));
                 st2 = emit st1 SpinnerStop
             in reportAnswer env st2 res
           else st0))"

definition run_he :: "env \<Rightarrow> shell_state \<Rightarrow> string list \<Rightarrow> shell_state" where
  "run_he env st args =
     (let st1 = emit st (SpinnerStart spinnerText);
          res = (if defaultModel st1 = gemini then betterMan env (join_with '' '' args)
                 else betterManOpenAi env (join_with '' '' args));
          st2 = emit st1 SpinnerStop;
          st3 = emit st2 (ConsoleLog (shown res))
      in prompt st3)"

definition run_switchAI :: "env \<Rightarrow> shell_state \<Rightarrow> shell_state" where
  "run_switchAI env st =
     prompt
       (if defaultModel st = openAi
        then emit (st\<lparr>defaultModel := gemini\<rparr>) (ConsoleLog (chalkGreen env ''Switched to Gemini model''))
        else emit (st\<lparr>defaultModel := openAi\<rparr>) (ConsoleLog (chalkGreen env ''Switched to OpenAI model'')))"

definition runShellCommand :: "env \<Rightarrow> shell_state \<Rightarrow> string \<Rightarrow> shell_state" where
  "runShellCommand env st cmdline =
     (let parts = split_on CHR 0x20 cmdline; cmd = hd parts; args = tl parts in
      if cmd = ''cd'' then
        let st1 = st\<lparr>currentSessionCommands := currentSessionCommands st @ [cmdline]\<rparr>;
            st2 = saveToHistory st1 cmdline;
            st3 = changeDirectory env st2 cmdline
        in prompt st3
      else if cmd = ''history'' then prompt (showHistory st)
      else if cmd = ''cat'' then
        let st1 = st\<lparr>currentSessionCommands := currentSessionCommands st @ [cmdline]\<rparr>;
            st2 = saveToHistory st1 cmdline;
            st3 = catFile st2 cmdline
        in prompt st3
      else if cmd = ''exit'' then emit st RlClose
      else if cmd = ''switchAI'' then run_switchAI env st
      else if cmd = ''copy'' then prompt (saveOutputToFile st (commandLog st))
      else if cmd = ''hm'' then run_hm env st
      else if cmd = ''hp'' then run_hp env st args
      else if cmd = ''he'' then run_he env st args
      else runTheCommand env st cmdline)"

section \<open>The suggestion engine in the specification's words\<close>

text \<open>
  Section 4.2 of the specification: in each pool, the last entry whose lowercase form starts
  with the lowercase prefix; over the pools in priority order, the first result that is not
  empty; the empty string if there is none.  These definitions follow the specification and
  are compared with \<open>updateSuggestion\<close> below.
\<close>

definition matchesPrefix :: "string \<Rightarrow> string \<Rightarrow> bool" where
  "matchesPrefix p c \<longleftrightarrow> prefix (toLowerCase p) (toLowerCase c)"

definition lastMatching :: "string \<Rightarrow> string list \<Rightarrow> string option" where
  "lastMatching p pool =
     (let ms = filter (matchesPrefix p) pool in if ms = [] then None else Some (last ms))"

definition firstNonEmpty :: "string list \<Rightarrow> string" where
  "firstNonEmpty rs = (case filter (\<lambda>r. r \<noteq> []) rs of [] \<Rightarrow> [] | r # _ \<Rightarrow> r)"

definition spec_match :: "string \<Rightarrow> string list list \<Rightarrow> string" where
  "spec_match p pools = firstNonEmpty (map (\<lambda>pool. or_empty (lastMatching p pool)) pools)"

section \<open>Notions the properties are stated with\<close>

text \<open>The failure log as a fresh start of the shell reads it from the file.\<close>

definition persisted :: "shell_state \<Rightarrow> CommandLog list" where
  "persisted st = fst (loadCommandErrors (errorFile st))"

text \<open>The command names \<open>runShellCommand\<close> handles itself.\<close>

definition builtins :: "string list" where
  "builtins = [''cd'', ''history'', ''cat'', ''exit'', ''switchAI'', ''copy'', ''hm'', ''hp'', ''he'']"

text \<open>The log entry of a child that closed after the given stderr chunks, and the log entry of
  a launch that failed with the given message, as the handlers leave them (lemmas
  \<open>runTheCommand_close\<close>, \<open>runTheCommand_error\<close> and \<open>runTheCommand_throws\<close>).\<close>

definition closedEntry :: "env \<Rightarrow> shell_state \<Rightarrow> string \<Rightarrow> string list \<Rightarrow> int option \<Rightarrow> CommandLog" where
  "closedEntry env st cmdline chunks code =
     (logInit env st cmdline)\<lparr>output_info :=
        \<lparr>stderr = concat (map (stripAnsi env) chunks),
         exitCode = (case code of None \<Rightarrow> 0 | Some c \<Rightarrow> c),
         error = None\<rparr>\<rparr>"

definition erroredEntry :: "env \<Rightarrow> shell_state \<Rightarrow> string \<Rightarrow> string list \<Rightarrow> string \<Rightarrow> CommandLog" where
  "erroredEntry env st cmdline chunks msg =
     (logInit env st cmdline)\<lparr>output_info :=
        \<lparr>stderr = concat (map (stripAnsi env) chunks), exitCode = 1, error = Some msg\<rparr>\<rparr>"

text \<open>What the handlers assign to the fields of an entry.\<close>

definition withStderr :: "env \<Rightarrow> CommandLog \<Rightarrow> string \<Rightarrow> CommandLog" where
  "withStderr env e chunk =
     e\<lparr>output_info := (output_info e)\<lparr>stderr := stderr (output_info e) @ stripAnsi env chunk\<rparr>\<rparr>"

definition withError :: "CommandLog \<Rightarrow> string \<Rightarrow> CommandLog" where
  "withError e msg = e\<lparr>output_info := (output_info e)\<lparr>error := Some msg, exitCode := 1\<rparr>\<rparr>"

definition withExit :: "CommandLog \<Rightarrow> int option \<Rightarrow> CommandLog" where
  "withExit e code =
     e\<lparr>output_info := (output_info e)\<lparr>exitCode := (case code of None \<Rightarrow> 0 | Some c \<Rightarrow> c)\<rparr>\<rparr>"

text \<open>The log during a launch: what it held before, and then the references to the entry of
  this launch.\<close>

definition launchInv :: "CommandLog list \<Rightarrow> launch \<Rightarrow> bool" where
  "launchInv base l \<longleftrightarrow> commandLog (shellNow l) = base @ replicate (pushed l) (logEntry l)"

text \<open>The events whose handlers push the log entry and flush the file, and how many entries
  and history lines a launch leaves.\<close>

fun pushesEntry :: "child_event \<Rightarrow> bool" where
  "pushesEntry (StderrData chunk) = False"
| "pushesEntry (ErrorEvent err) = True"
| "pushesEntry (CloseEvent code) = (code \<noteq> Some 0)"

fun isClose :: "child_event \<Rightarrow> bool" where
  "isClose (StderrData chunk) = False"
| "isClose (ErrorEvent err) = False"
| "isClose (CloseEvent code) = True"

fun entriesLogged :: "spawn_result \<Rightarrow> nat" where
  "entriesLogged (SpawnThrows err) = 1"
| "entriesLogged (Spawned events) = length (filter pushesEntry events)"

fun closeEvents :: "spawn_result \<Rightarrow> nat" where
  "closeEvents (SpawnThrows err) = 0"
| "closeEvents (Spawned events) = length (filter isClose events)"

text \<open>A launch that ends with a flush of the log: \<open>spawn\<close> throws, or the last event of the
  child is an error event or a close event with a code other than 0.\<close>

fun failing :: "spawn_result \<Rightarrow> bool" where
  "failing (SpawnThrows err) = True"
| "failing (Spawned events) = (events \<noteq> [] \<and> pushesEntry (last events))"

text \<open>A launch after which nothing touches the entry that was flushed: it is failing, or no
  event of it pushes the entry at all.\<close>

definition settled :: "spawn_result \<Rightarrow> bool" where
  "settled r \<longleftrightarrow> failing r \<or> entriesLogged r = 0"

text \<open>Command lines run one after the other by the generic execution path, each with the
  environment's answers of its own step.\<close>

fun runAll :: "(env \<times> string) list \<Rightarrow> shell_state \<Rightarrow> shell_state" where
  "runAll [] st = st"
| "runAll (r # rs) st = runAll rs (runTheCommand (fst r) st (snd r))"

section \<open>A concrete environment and state\<close>

definition exampleEnv :: env where
  "exampleEnv =
     \<lparr>stripAnsi = (\<lambda>s. s), chalkGreen = (\<lambda>s. s), chalkRed = (\<lambda>s. s),
      formatPrompt = ''> '', getErrorMessageFace = '':('',
      generateId = ''cmd_1_abc'', isoNow = ''2026-01-01T00:00:00.000Z'',
      userName = ''user'', processPlatform = ''linux'', envSHELL = Some ''/bin/sh'',
      cdTarget = ''/'', spawnResult = Spawned [StderrData ''oops'', CloseEvent (Some 2)],
      generateCommandForHm = Some ''ls -la'', generateCommandForHp = (\<lambda>m. Some ''ls -la''),
      betterMan = (\<lambda>m. Some ''lists files''),
      generateCommandForHmOpenAi = Some ''ls -la'',
      generateCommandForHpOpenAi = (\<lambda>m. Some ''ls -la''),
      betterManOpenAi = (\<lambda>m. Some ''lists files''),
      keyAnswer = ''key'', keyWriteError = None\<rparr>"

definition exampleState :: shell_state where
  "exampleState = startup [] Missing (Some ''key'') ''/home/user''"

text \<open>The same environment with a child that exits with code 0, a child ended by a signal, a
  command the shell does not find (the launcher runs \<open>/bin/sh -c\<close>, which reports it on
  stderr and exits with 127), a launch that fails (an error event, then a close event with
  the code -2), and collaborators that answer with the failure sentinel.\<close>

definition successEnv :: env where
  "successEnv = exampleEnv\<lparr>spawnResult := Spawned [CloseEvent (Some 0)]\<rparr>"

definition signalEnv :: env where
  "signalEnv = exampleEnv\<lparr>spawnResult := Spawned [CloseEvent None]\<rparr>"

definition notFoundEnv :: env where
  "notFoundEnv = exampleEnv\<lparr>spawnResult :=
     Spawned [StderrData ''/bin/sh: 1: doesnotexist123: not found'', CloseEvent (Some 127)]\<rparr>"

definition launchErrorEnv :: env where
  "launchErrorEnv = exampleEnv\<lparr>spawnResult :=
     Spawned [ErrorEvent (JsError ''Error'' ''spawn /bin/sh ENOENT''), CloseEvent (Some (- 2))]\<rparr>"

definition sentinelEnv :: env where
  "sentinelEnv = exampleEnv\<lparr>generateCommandForHm := Some sentinel,
     generateCommandForHp := (\<lambda>m. Some sentinel), betterMan := (\<lambda>m. Some sentinel)\<rparr>"

section \<open>Properties\<close>

subsection \<open>Strings\<close>

lemma split_on_not_Nil: "split_on sep s \<noteq> []"
  by (induction s) (auto split: list.splits)

lemma dropWhile_all_iff: "(\<forall>x \<in> set (dropWhile P s). P x) \<longleftrightarrow> (\<forall>x \<in> set s. P x)"
proof
  assume a: "\<forall>x \<in> set (dropWhile P s). P x"
  have "dropWhile P s = []"
  proof (rule ccontr)
    assume n: "dropWhile P s \<noteq> []"
    then have "\<not> P (hd (dropWhile P s))" by (rule hd_dropWhile)
    moreover from n have "hd (dropWhile P s) \<in> set (dropWhile P s)" by simp
    ultimately show False using a by blast
  qed
  then show "\<forall>x \<in> set s. P x" by (simp add: dropWhile_eq_Nil_conv)
next
  assume "\<forall>x \<in> set s. P x"
  then show "\<forall>x \<in> set (dropWhile P s). P x" by (meson set_dropWhileD)
qed

lemma trim_Nil_iff: "trim s = [] \<longleftrightarrow> (\<forall>c \<in> set s. isWhitespace c)"
  by (simp add: trim_def dropWhile_eq_Nil_conv dropWhile_all_iff)

lemma toLowerCase_mono: "prefix p s \<Longrightarrow> prefix (toLowerCase p) (toLowerCase s)"
  by (simp add: toLowerCase_def map_mono_prefix)

subsection \<open>The last matching entry of a pool\<close>

lemma findLast_filter:
  "findLast P xs = (if filter P xs = [] then None else Some (last (filter P xs)))"
  unfolding findLast_def by (induction xs rule: rev_induct) auto

lemma findLast_lastMatching:
  "findLast (\<lambda>cmd. startsWith (toLowerCase cmd) (toLowerCase p)) pool = lastMatching p pool"
  by (simp add: findLast_filter lastMatching_def matchesPrefix_def [abs_def] startsWith_def Let_def)

lemma last_filter_index:
  "filter P xs \<noteq> [] \<Longrightarrow>
     \<exists>i < length xs. xs ! i = last (filter P xs) \<and> P (xs ! i) \<and>
        (\<forall>j. i < j \<and> j < length xs \<longrightarrow> \<not> P (xs ! j))"
proof (induction xs rule: rev_induct)
  case Nil
  then show ?case by simp
next
  case (snoc x xs)
  show ?case
  proof (cases "P x")
    case True
    then show ?thesis
      by (intro exI [of _ "length xs"]) auto
  next
    case False
    with snoc obtain i where i: "i < length xs" "xs ! i = last (filter P xs)" "P (xs ! i)"
      "\<forall>j. i < j \<and> j < length xs \<longrightarrow> \<not> P (xs ! j)"
      by auto
    show ?thesis
    proof (intro exI [of _ i] conjI allI impI)
      fix j assume j: "i < j \<and> j < length (xs @ [x])"
      show "\<not> P ((xs @ [x]) ! j)"
      proof (cases "j < length xs")
        case True
        with i j show ?thesis by (simp add: nth_append)
      next
        case False
        with j have "j = length xs" by simp
        with \<open>\<not> P x\<close> show ?thesis by simp
      qed
    qed (use i False in \<open>simp_all add: nth_append\<close>)
  qed
qed

text \<open>\<open>lastMatching\<close> is the entry at the highest index that matches: the most recently
  added one, since the pools grow at their end.\<close>

lemma lastMatching_Some_iff:
  "lastMatching p pool = Some c \<longleftrightarrow>
     (\<exists>i < length pool. pool ! i = c \<and> matchesPrefix p c \<and>
        (\<forall>j. i < j \<and> j < length pool \<longrightarrow> \<not> matchesPrefix p (pool ! j)))"
proof
  assume "lastMatching p pool = Some c"
  then have ne: "filter (matchesPrefix p) pool \<noteq> []" and c: "c = last (filter (matchesPrefix p) pool)"
    by (auto simp: lastMatching_def Let_def split: if_splits)
  from last_filter_index [OF ne] c show "\<exists>i < length pool. pool ! i = c \<and> matchesPrefix p c \<and>
        (\<forall>j. i < j \<and> j < length pool \<longrightarrow> \<not> matchesPrefix p (pool ! j))"
    by auto
next
  assume "\<exists>i < length pool. pool ! i = c \<and> matchesPrefix p c \<and>
        (\<forall>j. i < j \<and> j < length pool \<longrightarrow> \<not> matchesPrefix p (pool ! j))"
  then obtain i where i: "i < length pool" "pool ! i = c" "matchesPrefix p c"
    "\<forall>j. i < j \<and> j < length pool \<longrightarrow> \<not> matchesPrefix p (pool ! j)" by blast
  then have ne: "filter (matchesPrefix p) pool \<noteq> []"
    by (auto simp: filter_empty_conv intro: nth_mem)
  from last_filter_index [OF ne] obtain k where k: "k < length pool"
    "pool ! k = last (filter (matchesPrefix p) pool)" "matchesPrefix p (pool ! k)"
    "\<forall>j. k < j \<and> j < length pool \<longrightarrow> \<not> matchesPrefix p (pool ! j)" by blast
  have "k = i"
  proof (rule ccontr)
    assume "k \<noteq> i"
    then consider "k < i" | "i < k" by linarith
    then show False
    proof cases
      case 1 with k i show False by auto
    next
      case 2 with k i show False by auto
    qed
  qed
  with k i ne show "lastMatching p pool = Some c"
    by (simp add: lastMatching_def Let_def)
qed

lemma lastMatching_None_iff:
  "lastMatching p pool = None \<longleftrightarrow> (\<forall>c \<in> set pool. \<not> matchesPrefix p c)"
  by (auto simp: lastMatching_def Let_def filter_empty_conv)

lemma matches_empty_entry: "matchesPrefix p [] \<longleftrightarrow> p = []"
  by (simp add: matchesPrefix_def toLowerCase_def)

lemma lastMatching_nonempty:
  "p \<noteq> [] \<or> [] \<notin> set pool \<Longrightarrow> lastMatching p pool \<noteq> Some []"
proof
  assume a: "p \<noteq> [] \<or> [] \<notin> set pool" and "lastMatching p pool = Some []"
  then obtain i where "i < length pool" "pool ! i = []" "matchesPrefix p []"
    unfolding lastMatching_Some_iff by blast
  then have "[] \<in> set pool" "p = []"
    by (auto simp: matches_empty_entry dest: nth_mem)
  with a show False by blast
qed

lemma spec_match_literal:
  assumes "p \<noteq> [] \<or> [] \<notin> set session \<union> set hist \<union> set static"
  shows "spec_match p [session, hist, static] =
     (case lastMatching p session of
        Some c \<Rightarrow> c
      | None \<Rightarrow> (case lastMatching p hist of
          Some c \<Rightarrow> c
        | None \<Rightarrow> (case lastMatching p static of Some c \<Rightarrow> c | None \<Rightarrow> [])))"
proof -
  from assms have "lastMatching p session \<noteq> Some []" "lastMatching p hist \<noteq> Some []"
    "lastMatching p static \<noteq> Some []"
    by (auto intro!: lastMatching_nonempty)
  then show ?thesis
    by (auto simp: spec_match_def firstNonEmpty_def or_empty_def split: option.splits)
qed

lemma commonCommands_nonempty: "[] \<notin> set commonCommands"
  by (simp add: commonCommands_def)

lemma spec_match_matches:
  "spec_match p pools \<noteq> [] \<Longrightarrow> matchesPrefix p (spec_match p pools)"
proof -
  assume ne: "spec_match p pools \<noteq> []"
  let ?rs = "map (\<lambda>pool. or_empty (lastMatching p pool)) pools"
  from ne obtain r rest where r: "filter (\<lambda>r. r \<noteq> []) ?rs = r # rest" "spec_match p pools = r"
    by (auto simp: spec_match_def firstNonEmpty_def split: list.splits)
  then have "r \<in> set (filter (\<lambda>r. r \<noteq> []) ?rs)" by simp
  then obtain pool where "r = or_empty (lastMatching p pool)" "r \<noteq> []" by auto
  then have "lastMatching p pool = Some r"
    by (auto simp: or_empty_def split: option.splits)
  then have "matchesPrefix p r" unfolding lastMatching_Some_iff by blast
  with r show ?thesis by simp
qed

subsection \<open>The suggestion computation\<close>

lemma currentSuggestion_refresh:
  "currentSuggestion (rl_refreshLine env st) = currentSuggestion st"
  by (simp add: rl_refreshLine_def emit_def Let_def)

lemma updateSuggestion_spec_match:
  "trim input \<noteq> [] \<Longrightarrow>
   currentSuggestion (updateSuggestion env st input) =
     spec_match (take (rl_cursor st) input)
       [currentSessionCommands st, historicalCommands st, commonCommands]"
  by (simp add: updateSuggestion_def Let_def findLast_lastMatching spec_match_def
      firstNonEmpty_def or_empty_def currentSuggestion_refresh split: option.splits)

lemma updateSuggestion_blank:
  "trim input = [] \<Longrightarrow> updateSuggestion env st input = st\<lparr>currentSuggestion := []\<rparr>"
  by (simp add: updateSuggestion_def)

lemmas eval_defs =
  updateSuggestion_def rl_refreshLine_def emit_def prompt_def startup_def loadCommandErrors_def
  exampleEnv_def exampleState_def trim_def isWhitespace_def toLowerCase_def lowerChar_def
  startsWith_def findLast_def or_empty_def commonCommands_def Let_def

text \<open>
  C1.  Whenever the buffer is not blank, the suggestion is what the specification's matching
  function gives for the text before the cursor and the pools in the order session,
  historical, static: per pool the last entry whose lowercase form starts with the
  lowercase prefix, and over the pools the first such result that is not empty, the empty
  string if there is none.  Unless the prefix is empty and a pool holds an empty entry
  (which only the empty prefix matches, and which is passed over as no result), this is
  the last matching entry of the first pool that has a match.  In particular, with the
  session commands \<open>git status\<close> and \<open>git push origin\<close> pushed in that order and
  \<open>gi\<close> before the cursor, the suggestion is \<open>git push origin\<close>, whatever the
  other pools hold.
\<close>

theorem suggestion_priority_order:
  assumes "trim input \<noteq> []"
  shows "currentSuggestion (updateSuggestion env st input) =
           spec_match (take (rl_cursor st) input)
             [currentSessionCommands st, historicalCommands st, commonCommands]
     \<and> (take (rl_cursor st) input \<noteq> []
          \<or> [] \<notin> set (currentSessionCommands st) \<union> set (historicalCommands st) \<longrightarrow>
        currentSuggestion (updateSuggestion env st input) =
          (case lastMatching (take (rl_cursor st) input) (currentSessionCommands st) of
             Some c \<Rightarrow> c
           | None \<Rightarrow>
               (case lastMatching (take (rl_cursor st) input) (historicalCommands st) of
                  Some c \<Rightarrow> c
                | None \<Rightarrow>
                    (case lastMatching (take (rl_cursor st) input) commonCommands of
                       Some c \<Rightarrow> c
                     | None \<Rightarrow> []))))
     \<and> (currentSessionCommands st = [''git status'', ''git push origin'']
          \<and> take (rl_cursor st) input = ''gi'' \<longrightarrow>
        currentSuggestion (updateSuggestion env st input) = ''git push origin'')"
proof (intro conjI impI)
  show m: "currentSuggestion (updateSuggestion env st input) =
      spec_match (take (rl_cursor st) input)
        [currentSessionCommands st, historicalCommands st, commonCommands]"
    using assms by (rule updateSuggestion_spec_match)
  {
    assume "take (rl_cursor st) input \<noteq> []
      \<or> [] \<notin> set (currentSessionCommands st) \<union> set (historicalCommands st)"
    then have "take (rl_cursor st) input \<noteq> []
      \<or> [] \<notin> set (currentSessionCommands st) \<union> set (historicalCommands st) \<union> set commonCommands"
      using commonCommands_nonempty by auto
    from spec_match_literal [OF this] m
    show "currentSuggestion (updateSuggestion env st input) =
          (case lastMatching (take (rl_cursor st) input) (currentSessionCommands st) of
             Some c \<Rightarrow> c
           | None \<Rightarrow>
               (case lastMatching (take (rl_cursor st) input) (historicalCommands st) of
                  Some c \<Rightarrow> c
                | None \<Rightarrow>
                    (case lastMatching (take (rl_cursor st) input) commonCommands of
                       Some c \<Rightarrow> c
                     | None \<Rightarrow> [])))"
      by simp
  }
  {
    assume a: "currentSessionCommands st = [''git status'', ''git push origin'']
      \<and> take (rl_cursor st) input = ''gi''"
    have "lastMatching ''gi'' [''git status'', ''git push origin''] = Some ''git push origin''"
      by (simp add: lastMatching_def matchesPrefix_def toLowerCase_def lowerChar_def)
    with a m show "currentSuggestion (updateSuggestion env st input) = ''git push origin''"
      by (simp add: spec_match_def firstNonEmpty_def or_empty_def)
  }
qed

theorem suggestion_priority_order_witness:
  "trim ''gi'' \<noteq> []
   \<and> take (rl_cursor (exampleState\<lparr>currentSessionCommands := [''git status'', ''git push origin''],
        historicalCommands := [''git status''], rl_line := ''gi'', rl_cursor := 2\<rparr>)) ''gi'' = ''gi''
   \<and> currentSuggestion (updateSuggestion exampleEnv
        (exampleState\<lparr>currentSessionCommands := [''git status'', ''git push origin''],
           historicalCommands := [''git status''], rl_line := ''gi'', rl_cursor := 2\<rparr>) ''gi'')
       = ''git push origin''"
proof -
  have h: "trim ''gi'' \<noteq> []"
    by (simp add: trim_def isWhitespace_def)
  have t: "take (rl_cursor (exampleState\<lparr>currentSessionCommands := [''git status'', ''git push origin''],
        historicalCommands := [''git status''], rl_line := ''gi'', rl_cursor := 2\<rparr>)) ''gi'' = ''gi''"
    by simp
  have s: "currentSessionCommands (exampleState\<lparr>currentSessionCommands := [''git status'', ''git push origin''],
        historicalCommands := [''git status''], rl_line := ''gi'', rl_cursor := 2\<rparr>)
      = [''git status'', ''git push origin'']"
    by simp
  from suggestion_priority_order [OF h, of exampleEnv
      "exampleState\<lparr>currentSessionCommands := [''git status'', ''git push origin''],
         historicalCommands := [''git status''], rl_line := ''gi'', rl_cursor := 2\<rparr>"]
  have "currentSuggestion (updateSuggestion exampleEnv
        (exampleState\<lparr>currentSessionCommands := [''git status'', ''git push origin''],
           historicalCommands := [''git status''], rl_line := ''gi'', rl_cursor := 2\<rparr>) ''gi'')
       = ''git push origin''"
    using s t by blast
  with h t show ?thesis by blast
qed

subsection \<open>The overlay\<close>

lemma startsWith_lowercase:
  "startsWith s l \<Longrightarrow> prefix (toLowerCase (take c l)) (toLowerCase s)"
proof -
  assume "startsWith s l"
  then have "prefix l s" by (simp add: startsWith_def)
  moreover have "prefix (take c l) l" by (rule take_is_prefix)
  ultimately have "prefix (take c l) s" by (rule prefix_order.trans [rotated])
  then show ?thesis by (rule toLowerCase_mono)
qed

lemma refreshLine_trace:
  "trace (rl_refreshLine env st) =
     (if currentSuggestion st \<noteq> [] \<and> (rl_line st \<noteq> [] \<or> bypassRlLine st) then
        trace st @
          [StdoutWrite clearLine, StdoutWrite (formatPrompt env),
           StdoutWrite (take (rl_cursor st) (rl_line st))] @
          (if startsWith (currentSuggestion st) (rl_line st)
           then [StdoutWrite (DIM @ drop (rl_cursor st) (currentSuggestion st) @ RESET)] else []) @
          [CursorTo (length (stripAnsi env (formatPrompt env)) + rl_cursor st)]
      else trace st @ [OriginalRefreshLine])"
  by (simp add: rl_refreshLine_def emit_def Let_def)

text \<open>
  C4 (as amended).  The suggestion is computed against the substring of the buffer up to the
  cursor: two buffers that are not blank and agree up to the cursor get the same
  suggestion, and a suggestion that is produced starts, in lowercase, with the lowercase
  form of that substring.  Whenever the whole buffer is empty or whitespace-only the
  computation yields no suggestion: the current suggestion is set to the empty string and
  nothing else changes.
\<close>

theorem suggestion_uses_text_before_cursor:
  "(trim input = [] \<longrightarrow> updateSuggestion env st input = st\<lparr>currentSuggestion := []\<rparr>)
   \<and> (trim input \<noteq> [] \<and> trim input' \<noteq> []
        \<and> take (rl_cursor st) input = take (rl_cursor st) input' \<longrightarrow>
      currentSuggestion (updateSuggestion env st input)
        = currentSuggestion (updateSuggestion env st input'))
   \<and> (currentSuggestion (updateSuggestion env st input) \<noteq> [] \<longrightarrow>
      matchesPrefix (take (rl_cursor st) input) (currentSuggestion (updateSuggestion env st input)))"
proof (intro conjI impI)
  assume "trim input = []"
  then show "updateSuggestion env st input = st\<lparr>currentSuggestion := []\<rparr>"
    by (rule updateSuggestion_blank)
next
  assume "trim input \<noteq> [] \<and> trim input' \<noteq> []
        \<and> take (rl_cursor st) input = take (rl_cursor st) input'"
  then show "currentSuggestion (updateSuggestion env st input)
        = currentSuggestion (updateSuggestion env st input')"
    by (simp add: updateSuggestion_spec_match)
next
  assume ne: "currentSuggestion (updateSuggestion env st input) \<noteq> []"
  show "matchesPrefix (take (rl_cursor st) input) (currentSuggestion (updateSuggestion env st input))"
  proof (cases "trim input = []")
    case True
    with ne show ?thesis by (simp add: updateSuggestion_blank)
  next
    case False
    with ne show ?thesis
      by (simp add: updateSuggestion_spec_match spec_match_matches)
  qed
qed

theorem suggestion_uses_text_before_cursor_witness:
  "trim ''   '' = []
   \<and> updateSuggestion exampleEnv (exampleState\<lparr>currentSuggestion := ''old''\<rparr>) ''   ''
       = exampleState\<lparr>currentSuggestion := []\<rparr>
   \<and> trim ''git status'' \<noteq> [] \<and> trim ''gi'' \<noteq> []
   \<and> take (rl_cursor (exampleState\<lparr>rl_cursor := 2\<rparr>)) ''git status''
       = take (rl_cursor (exampleState\<lparr>rl_cursor := 2\<rparr>)) ''gi''
   \<and> currentSuggestion (updateSuggestion exampleEnv (exampleState\<lparr>rl_cursor := 2\<rparr>) ''git status'')
       = currentSuggestion (updateSuggestion exampleEnv (exampleState\<lparr>rl_cursor := 2\<rparr>) ''gi'')
   \<and> currentSuggestion (updateSuggestion exampleEnv (exampleState\<lparr>rl_cursor := 2\<rparr>) ''gi'') \<noteq> []
   \<and> matchesPrefix ''gi''
        (currentSuggestion (updateSuggestion exampleEnv (exampleState\<lparr>rl_cursor := 2\<rparr>) ''gi''))"
proof -
  have b: "trim ''   '' = []" by (simp add: trim_def isWhitespace_def)
  have n: "trim ''git status'' \<noteq> []" "trim ''gi'' \<noteq> []"
    by (simp_all add: trim_def isWhitespace_def)
  have t: "take (rl_cursor (exampleState\<lparr>rl_cursor := 2\<rparr>)) ''git status''
       = take (rl_cursor (exampleState\<lparr>rl_cursor := 2\<rparr>)) ''gi''" by simp
  have t2: "take (rl_cursor (exampleState\<lparr>rl_cursor := 2\<rparr>)) ''gi'' = ''gi''" by simp
  have e: "currentSuggestion (updateSuggestion exampleEnv (exampleState\<lparr>rl_cursor := 2\<rparr>) ''gi'') \<noteq> []"
    by (simp add: eval_defs)
  from suggestion_uses_text_before_cursor
    [of "''   ''" exampleEnv "exampleState\<lparr>currentSuggestion := ''old''\<rparr>"] b
  have 1: "updateSuggestion exampleEnv (exampleState\<lparr>currentSuggestion := ''old''\<rparr>) ''   ''
       = exampleState\<lparr>currentSuggestion := []\<rparr>" by simp
  from suggestion_uses_text_before_cursor
    [of "''git status''" exampleEnv "exampleState\<lparr>rl_cursor := 2\<rparr>" "''gi''"] n t
  have 2: "currentSuggestion (updateSuggestion exampleEnv (exampleState\<lparr>rl_cursor := 2\<rparr>) ''git status'')
       = currentSuggestion (updateSuggestion exampleEnv (exampleState\<lparr>rl_cursor := 2\<rparr>) ''gi'')"
    by blast
  from suggestion_uses_text_before_cursor
    [of "''gi''" exampleEnv "exampleState\<lparr>rl_cursor := 2\<rparr>"] e
  have "matchesPrefix (take (rl_cursor (exampleState\<lparr>rl_cursor := 2\<rparr>)) ''gi'')
        (currentSuggestion (updateSuggestion exampleEnv (exampleState\<lparr>rl_cursor := 2\<rparr>) ''gi''))"
    by blast
  then have 3: "matchesPrefix ''gi''
        (currentSuggestion (updateSuggestion exampleEnv (exampleState\<lparr>rl_cursor := 2\<rparr>) ''gi''))"
    unfolding t2 .
  from b 1 n t 2 e 3 show ?thesis by blast
qed

text \<open>
  C4 as stated fails: the guard reads the whole buffer, not the prefix.  With the buffer
  \<open>git\<close> and the cursor at position 0 the prefix is empty, every entry matches it, and
  with empty session and historical pools the suggestion is \<open>exit\<close>, the last static
  command.
\<close>

theorem empty_prefix_counterexample:
  "trim (take (rl_cursor (exampleState\<lparr>rl_line := ''git'', rl_cursor := 0\<rparr>)) ''git'') = []
   \<and> currentSuggestion (updateSuggestion exampleEnv
        (exampleState\<lparr>rl_line := ''git'', rl_cursor := 0\<rparr>) ''git'') = ''exit''"
  by (simp add: eval_defs)

text \<open>
  C7.  A render writes either the default line refresh, or the overlay without dim text, or
  the overlay with the dim remainder of the suggestion.  Whenever the dim text is written,
  the lowercase form of the suggestion starts with the lowercase form of the buffer up to
  the cursor; a suggestion that violates this is rendered without dim text (or by the
  default refresh).
\<close>

theorem ghost_text_matches_prefix:
  "(trace (rl_refreshLine env st) = trace st @ [OriginalRefreshLine]
    \<or> trace (rl_refreshLine env st) = trace st @
         [StdoutWrite clearLine, StdoutWrite (formatPrompt env),
          StdoutWrite (take (rl_cursor st) (rl_line st)),
          CursorTo (length (stripAnsi env (formatPrompt env)) + rl_cursor st)]
    \<or> trace (rl_refreshLine env st) = trace st @
         [StdoutWrite clearLine, StdoutWrite (formatPrompt env),
          StdoutWrite (take (rl_cursor st) (rl_line st)),
          StdoutWrite (DIM @ drop (rl_cursor st) (currentSuggestion st) @ RESET),
          CursorTo (length (stripAnsi env (formatPrompt env)) + rl_cursor st)])
   \<and> (trace (rl_refreshLine env st) = trace st @
         [StdoutWrite clearLine, StdoutWrite (formatPrompt env),
          StdoutWrite (take (rl_cursor st) (rl_line st)),
          StdoutWrite (DIM @ drop (rl_cursor st) (currentSuggestion st) @ RESET),
          CursorTo (length (stripAnsi env (formatPrompt env)) + rl_cursor st)] \<longrightarrow>
        prefix (toLowerCase (take (rl_cursor st) (rl_line st))) (toLowerCase (currentSuggestion st)))
   \<and> (\<not> prefix (toLowerCase (take (rl_cursor st) (rl_line st))) (toLowerCase (currentSuggestion st)) \<longrightarrow>
        trace (rl_refreshLine env st) = trace st @ [OriginalRefreshLine]
        \<or> trace (rl_refreshLine env st) = trace st @
             [StdoutWrite clearLine, StdoutWrite (formatPrompt env),
              StdoutWrite (take (rl_cursor st) (rl_line st)),
              CursorTo (length (stripAnsi env (formatPrompt env)) + rl_cursor st)])"
proof (cases "currentSuggestion st \<noteq> [] \<and> (rl_line st \<noteq> [] \<or> bypassRlLine st)")
  case False
  then show ?thesis by (auto simp: refreshLine_trace)
next
  case overlay: True
  show ?thesis
  proof (cases "startsWith (currentSuggestion st) (rl_line st)")
    case True
    from startsWith_lowercase [OF this]
    have "prefix (toLowerCase (take (rl_cursor st) (rl_line st))) (toLowerCase (currentSuggestion st))" .
    with overlay True show ?thesis by (simp add: refreshLine_trace)
  next
    case False
    with overlay show ?thesis by (simp add: refreshLine_trace)
  qed
qed

theorem ghost_text_matches_prefix_witness:
  "trace (rl_refreshLine exampleEnv (exampleState\<lparr>currentSuggestion := ''git status'', rl_line := ''gi'', rl_cursor := 2\<rparr>))
     = [Prompt, StdoutWrite clearLine, StdoutWrite ''> '', StdoutWrite ''gi'',
        StdoutWrite (DIM @ ''t status'' @ RESET), CursorTo 4]
   \<and> prefix (toLowerCase ''gi'') (toLowerCase ''git status'')
   \<and> \<not> prefix (toLowerCase ''gx'') (toLowerCase ''git status'')
   \<and> trace (rl_refreshLine exampleEnv (exampleState\<lparr>currentSuggestion := ''git status'', rl_line := ''gx'', rl_cursor := 2\<rparr>))
     = [Prompt, StdoutWrite clearLine, StdoutWrite ''> '', StdoutWrite ''gx'', CursorTo 4]"
proof -
  let ?st = "exampleState\<lparr>currentSuggestion := ''git status'', rl_line := ''gi'', rl_cursor := 2\<rparr>"
  have t: "trace (rl_refreshLine exampleEnv ?st) = trace ?st @
         [StdoutWrite clearLine, StdoutWrite (formatPrompt exampleEnv),
          StdoutWrite (take (rl_cursor ?st) (rl_line ?st)),
          StdoutWrite (DIM @ drop (rl_cursor ?st) (currentSuggestion ?st) @ RESET),
          CursorTo (length (stripAnsi exampleEnv (formatPrompt exampleEnv)) + rl_cursor ?st)]"
    by (simp add: eval_defs)
  with ghost_text_matches_prefix [of exampleEnv ?st]
  have "prefix (toLowerCase (take (rl_cursor ?st) (rl_line ?st))) (toLowerCase (currentSuggestion ?st))"
    by blast
  then have "prefix (toLowerCase ''gi'') (toLowerCase ''git status'')" by simp
  moreover from t have "trace (rl_refreshLine exampleEnv ?st)
     = [Prompt, StdoutWrite clearLine, StdoutWrite ''> '', StdoutWrite ''gi'',
        StdoutWrite (DIM @ ''t status'' @ RESET), CursorTo 4]"
    by (simp add: eval_defs)
  moreover have n: "\<not> prefix (toLowerCase ''gx'') (toLowerCase ''git status'')"
    by (simp add: toLowerCase_def lowerChar_def)
  moreover have "trace (rl_refreshLine exampleEnv (exampleState\<lparr>currentSuggestion := ''git status'', rl_line := ''gx'', rl_cursor := 2\<rparr>))
     = [Prompt, StdoutWrite clearLine, StdoutWrite ''> '', StdoutWrite ''gx'', CursorTo 4]"
    using n ghost_text_matches_prefix [of exampleEnv
        "exampleState\<lparr>currentSuggestion := ''git status'', rl_line := ''gx'', rl_cursor := 2\<rparr>"]
    by (simp add: eval_defs)
  ultimately show ?thesis by blast
qed

subsection \<open>The execution engine\<close>

lemma launchInv_start: "launchInv (commandLog st) (startLaunch env st cmdline)"
  by (simp add: launchInv_def startLaunch_def)


lemma onStderrData_eq:
  assumes "launchInv base l"
  shows "onStderrData env l chunk =
     \<lparr>shellNow = (shellNow l)\<lparr>commandLog := base @ replicate (pushed l) (withStderr env (logEntry l) chunk),
                                trace := trace (shellNow l) @ [ConsoleError chunk]\<rparr>,
      logEntry = withStderr env (logEntry l) chunk,
      pushed = pushed l\<rparr>"
  using assms
  by (intro launch.equality) (simp_all add: onStderrData_def launchInv_def setOutput_def onShell_def Let_def emit_def withStderr_def)

lemma onError_eq:
  assumes "launchInv base l"
  shows "onError env l err =
     \<lparr>shellNow = (shellNow l)
        \<lparr>commandLog := base @ replicate (Suc (pushed l)) (withError (logEntry l) (stripAnsi env (message err))),
         errorFile := Readable (JSON_stringify
           (base @ replicate (Suc (pushed l)) (withError (logEntry l) (stripAnsi env (message err))))),
         trace := trace (shellNow l) @ [ConsoleError (chalkRed env (message err)), Prompt]\<rparr>,
      logEntry = withError (logEntry l) (stripAnsi env (message err)),
      pushed = Suc (pushed l)\<rparr>"
  using assms
  by (intro launch.equality) (simp_all add: onError_def launchInv_def setOutput_def pushEntry_def onShell_def Let_def emit_def
      prompt_def saveOutputToFile_def withError_def replicate_append_same)

lemma onSpawnException_eq:
  assumes "launchInv base l"
  shows "onSpawnException env l err =
     \<lparr>shellNow = (shellNow l)
        \<lparr>commandLog := base @ replicate (Suc (pushed l)) (withError (logEntry l) (message err)),
         errorFile := Readable (JSON_stringify
           (base @ replicate (Suc (pushed l)) (withError (logEntry l) (message err)))),
         trace := trace (shellNow l) @
           [ConsoleError (chalkRed env (''Error executing command: '' @ errorToString err)), Prompt]\<rparr>,
      logEntry = withError (logEntry l) (message err),
      pushed = Suc (pushed l)\<rparr>"
  using assms
  by (intro launch.equality) (simp_all add: onSpawnException_def launchInv_def setOutput_def pushEntry_def onShell_def Let_def
      emit_def prompt_def saveOutputToFile_def withError_def replicate_append_same)

lemma onClose_eq:
  assumes "launchInv base l"
  shows "onClose l cmdline code =
     \<lparr>shellNow = (shellNow l)
        \<lparr>currentSessionCommands := currentSessionCommands (shellNow l) @ [cmdline],
         commandLog := base @ replicate (if code \<noteq> Some 0 then Suc (pushed l) else pushed l)
                                  (withExit (logEntry l) code),
         historyFile := historyFile (shellNow l) @ [cmdline],
         errorFile := (if code \<noteq> Some 0
                       then Readable (JSON_stringify
                              (base @ replicate (Suc (pushed l)) (withExit (logEntry l) code)))
                       else errorFile (shellNow l)),
         trace := trace (shellNow l) @ [Prompt]\<rparr>,
      logEntry = withExit (logEntry l) code,
      pushed = (if code \<noteq> Some 0 then Suc (pushed l) else pushed l)\<rparr>"
  using assms
  by (intro launch.equality) (simp_all add: onClose_def launchInv_def setOutput_def pushEntry_def onShell_def Let_def emit_def
      prompt_def saveOutputToFile_def saveToHistory_def withExit_def replicate_append_same
      split: option.splits)


lemma handleEvent_step:
  assumes "launchInv base l"
  shows "launchInv base (handleEvent env cmdline l ev)"
    and "pushed (handleEvent env cmdline l ev) = pushed l + (if pushesEntry ev then 1 else 0)"
    and "command (logEntry (handleEvent env cmdline l ev)) = command (logEntry l)"
    and "entry_id (logEntry (handleEvent env cmdline l ev)) = entry_id (logEntry l)"
    and "historyFile (shellNow (handleEvent env cmdline l ev))
           = historyFile (shellNow l) @ (if isClose ev then [cmdline] else [])"
    and "pushesEntry ev \<Longrightarrow> errorFile (shellNow (handleEvent env cmdline l ev))
           = Readable (JSON_stringify (commandLog (shellNow (handleEvent env cmdline l ev))))"
    and "\<not> pushesEntry ev \<Longrightarrow> errorFile (shellNow (handleEvent env cmdline l ev))
           = errorFile (shellNow l)"
  using assms
  by (cases ev; simp add: onStderrData_eq onError_eq onClose_eq launchInv_def
        withStderr_def withError_def withExit_def)+

lemma foldl_handleEvent:
  assumes "launchInv base l"
  shows "launchInv base (foldl (handleEvent env cmdline) l events)
     \<and> pushed (foldl (handleEvent env cmdline) l events)
          = pushed l + length (filter pushesEntry events)
     \<and> command (logEntry (foldl (handleEvent env cmdline) l events)) = command (logEntry l)
     \<and> entry_id (logEntry (foldl (handleEvent env cmdline) l events)) = entry_id (logEntry l)
     \<and> historyFile (shellNow (foldl (handleEvent env cmdline) l events))
          = historyFile (shellNow l) @ replicate (length (filter isClose events)) cmdline
     \<and> (filter pushesEntry events = [] \<longrightarrow>
          errorFile (shellNow (foldl (handleEvent env cmdline) l events)) = errorFile (shellNow l))
     \<and> (events \<noteq> [] \<and> pushesEntry (last events) \<longrightarrow>
          errorFile (shellNow (foldl (handleEvent env cmdline) l events))
            = Readable (JSON_stringify (commandLog (shellNow (foldl (handleEvent env cmdline) l events)))))"
proof (induction events rule: rev_induct)
  case Nil
  from assms show ?case by simp
next
  case (snoc ev events)
  let ?m = "foldl (handleEvent env cmdline) l events"
  from snoc have inv: "launchInv base ?m" by blast
  have f: "foldl (handleEvent env cmdline) l (events @ [ev]) = handleEvent env cmdline ?m ev"
    by simp
  note step = handleEvent_step [OF inv, where env = env and cmdline = cmdline and ev = ev]
  show ?case
    unfolding f using snoc step
    by (auto simp: replicate_append_same)
qed


lemma launchInv_unpushed: "pushed l = 0 \<Longrightarrow> launchInv (commandLog (shellNow l)) l"
  by (simp add: launchInv_def)

lemma foldl_stderr:
  assumes "pushed l = 0"
  shows "foldl (handleEvent env cmdline) l (map StderrData chunks) =
     l\<lparr>shellNow := (shellNow l)\<lparr>trace := trace (shellNow l) @ map ConsoleError chunks\<rparr>,
       logEntry := (logEntry l)\<lparr>output_info := (output_info (logEntry l))
          \<lparr>stderr := stderr (output_info (logEntry l)) @ concat (map (stripAnsi env) chunks)\<rparr>\<rparr>\<rparr>"
  using assms
proof (induction chunks arbitrary: l)
  case Nil
  show ?case by simp
next
  case (Cons c cs)
  let ?l1 = "onStderrData env l c"
  have l1: "?l1 = l\<lparr>shellNow := (shellNow l)\<lparr>trace := trace (shellNow l) @ [ConsoleError c]\<rparr>,
       logEntry := withStderr env (logEntry l) c\<rparr>"
    using Cons.prems
    by (intro launch.equality)
       (simp_all add: onStderrData_eq [OF launchInv_unpushed [OF Cons.prems]])
  then have p: "pushed ?l1 = 0" using Cons.prems by simp
  have "foldl (handleEvent env cmdline) l (map StderrData (c # cs))
      = foldl (handleEvent env cmdline) ?l1 (map StderrData cs)" by simp
  also have "\<dots> = ?l1\<lparr>shellNow := (shellNow ?l1)\<lparr>trace := trace (shellNow ?l1) @ map ConsoleError cs\<rparr>,
       logEntry := (logEntry ?l1)\<lparr>output_info := (output_info (logEntry ?l1))
          \<lparr>stderr := stderr (output_info (logEntry ?l1)) @ concat (map (stripAnsi env) cs)\<rparr>\<rparr>\<rparr>"
    by (rule Cons.IH [OF p])
  also have "\<dots> = l\<lparr>shellNow := (shellNow l)\<lparr>trace := trace (shellNow l) @ map ConsoleError (c # cs)\<rparr>,
       logEntry := (logEntry l)\<lparr>output_info := (output_info (logEntry l))
          \<lparr>stderr := stderr (output_info (logEntry l)) @ concat (map (stripAnsi env) (c # cs))\<rparr>\<rparr>\<rparr>"
    unfolding l1 by (simp add: withStderr_def)
  finally show ?case .
qed

lemma after_stderr:
  "foldl (handleEvent env cmdline) (startLaunch env st cmdline) (map StderrData chunks) =
     \<lparr>shellNow = st\<lparr>trace := trace st @ map ConsoleError chunks\<rparr>,
      logEntry = (logInit env st cmdline)\<lparr>output_info :=
        \<lparr>stderr = concat (map (stripAnsi env) chunks), exitCode = 0, error = None\<rparr>\<rparr>,
      pushed = 0\<rparr>"
proof -
  have p: "pushed (startLaunch env st cmdline) = 0" by (simp add: startLaunch_def)
  show ?thesis
    unfolding foldl_stderr [OF p]
    by (simp add: startLaunch_def logInit_def Let_def)
qed

lemma runTheCommand_close:
  assumes "spawnResult env = Spawned (map StderrData chunks @ [CloseEvent code])"
  shows "runTheCommand env st cmdline =
     st\<lparr>currentSessionCommands := currentSessionCommands st @ [cmdline],
        commandLog := (if code \<noteq> Some 0
                       then commandLog st @ [closedEntry env st cmdline chunks code]
                       else commandLog st),
        historyFile := historyFile st @ [cmdline],
        errorFile := (if code \<noteq> Some 0
                      then Readable (JSON_stringify (commandLog st @ [closedEntry env st cmdline chunks code]))
                      else errorFile st),
        trace := trace st @ map ConsoleError chunks @ [Prompt]\<rparr>"
proof -
  let ?l = "\<lparr>shellNow = st\<lparr>trace := trace st @ map ConsoleError chunks\<rparr>,
      logEntry = (logInit env st cmdline)\<lparr>output_info :=
        \<lparr>stderr = concat (map (stripAnsi env) chunks), exitCode = 0, error = None\<rparr>\<rparr>,
      pushed = 0\<rparr>"
  have inv: "launchInv (commandLog st) ?l" by (simp add: launchInv_def)
  have "runTheCommand env st cmdline = shellNow (onClose ?l cmdline code)"
    by (simp add: runTheCommand_def assms after_stderr)
  then show ?thesis
    by (simp add: onClose_eq [OF inv] withExit_def closedEntry_def split: option.splits)
qed

lemma runTheCommand_error:
  assumes "spawnResult env = Spawned (map StderrData chunks @ [ErrorEvent err])"
  shows "runTheCommand env st cmdline =
     st\<lparr>commandLog := commandLog st @ [erroredEntry env st cmdline chunks (stripAnsi env (message err))],
        errorFile := Readable (JSON_stringify
           (commandLog st @ [erroredEntry env st cmdline chunks (stripAnsi env (message err))])),
        trace := trace st @ map ConsoleError chunks
                   @ [ConsoleError (chalkRed env (message err)), Prompt]\<rparr>"
proof -
  let ?l = "\<lparr>shellNow = st\<lparr>trace := trace st @ map ConsoleError chunks\<rparr>,
      logEntry = (logInit env st cmdline)\<lparr>output_info :=
        \<lparr>stderr = concat (map (stripAnsi env) chunks), exitCode = 0, error = None\<rparr>\<rparr>,
      pushed = 0\<rparr>"
  have inv: "launchInv (commandLog st) ?l" by (simp add: launchInv_def)
  have "runTheCommand env st cmdline = shellNow (onError env ?l err)"
    by (simp add: runTheCommand_def assms after_stderr)
  then show ?thesis
    by (simp add: onError_eq [OF inv] withError_def erroredEntry_def)
qed

text \<open>A launch that fails: the error handler, and then the close handler on the same entry.\<close>

lemma runTheCommand_error_close:
  assumes "spawnResult env = Spawned (map StderrData chunks @ [ErrorEvent err, CloseEvent code])"
  shows "runTheCommand env st cmdline =
     st\<lparr>currentSessionCommands := currentSessionCommands st @ [cmdline],
        commandLog := commandLog st @ replicate (if code \<noteq> Some 0 then 2 else 1)
           (withExit (erroredEntry env st cmdline chunks (stripAnsi env (message err))) code),
        historyFile := historyFile st @ [cmdline],
        errorFile := Readable (JSON_stringify
           (if code \<noteq> Some 0
            then commandLog st @ replicate 2
                   (withExit (erroredEntry env st cmdline chunks (stripAnsi env (message err))) code)
            else commandLog st @ [erroredEntry env st cmdline chunks (stripAnsi env (message err))])),
        trace := trace st @ map ConsoleError chunks
                   @ [ConsoleError (chalkRed env (message err)), Prompt, Prompt]\<rparr>"
proof -
  let ?l = "\<lparr>shellNow = st\<lparr>trace := trace st @ map ConsoleError chunks\<rparr>,
      logEntry = (logInit env st cmdline)\<lparr>output_info :=
        \<lparr>stderr = concat (map (stripAnsi env) chunks), exitCode = 0, error = None\<rparr>\<rparr>,
      pushed = 0\<rparr>"
  have inv: "launchInv (commandLog st) ?l" by (simp add: launchInv_def)
  have inv2: "launchInv (commandLog st) (onError env ?l err)"
    using handleEvent_step(1) [OF inv, where ev = "ErrorEvent err"] by simp
  have "runTheCommand env st cmdline = shellNow (onClose (onError env ?l err) cmdline code)"
    by (simp add: runTheCommand_def assms after_stderr)
  then show ?thesis
    unfolding onClose_eq [OF inv2]
    by (simp add: onError_eq [OF inv] withError_def withExit_def erroredEntry_def
        numeral_2_eq_2 split: option.splits)
qed

lemma runTheCommand_throws:
  assumes "spawnResult env = SpawnThrows err"
  shows "runTheCommand env st cmdline =
     st\<lparr>commandLog := commandLog st @ [erroredEntry env st cmdline [] (message err)],
        errorFile := Readable (JSON_stringify
           (commandLog st @ [erroredEntry env st cmdline [] (message err)])),
        trace := trace st @
          [ConsoleError (chalkRed env (''Error executing command: '' @ errorToString err)), Prompt]\<rparr>"
proof -
  have inv: "launchInv (commandLog st) (startLaunch env st cmdline)" by (rule launchInv_start)
  have "runTheCommand env st cmdline
      = shellNow (onSpawnException env (startLaunch env st cmdline) err)"
    by (simp add: runTheCommand_def assms)
  then show ?thesis
    unfolding onSpawnException_eq [OF inv]
    by (simp add: withError_def erroredEntry_def startLaunch_def logInit_def Let_def)
qed

lemma persisted_flush: "persisted (saveOutputToFile st l) = l"
  by (simp add: persisted_def saveOutputToFile_def loadCommandErrors_def JSON_stringify_def)

lemma logInit_raw: "raw (command (logInit env st cmdline)) = cmdline"
  by (simp add: logInit_def Let_def)

lemma persisted_Readable: "errorFile st = Readable (JSON_stringify l) \<Longrightarrow> persisted st = l"
  by (simp add: persisted_def loadCommandErrors_def JSON_stringify_def)

text \<open>What holds of every launch, whatever its events.\<close>

lemma runTheCommand_entries:
  "\<exists>e. commandLog (runTheCommand env st cmdline)
          = commandLog st @ replicate (entriesLogged (spawnResult env)) e
       \<and> raw (command e) = cmdline \<and> entry_id e = generateId env"
proof (cases "spawnResult env")
  case (SpawnThrows err)
  show ?thesis
    by (intro exI [of _ "erroredEntry env st cmdline [] (message err)"])
       (simp add: runTheCommand_throws [OF SpawnThrows] SpawnThrows erroredEntry_def logInit_def Let_def)
next
  case (Spawned events)
  let ?lf = "foldl (handleEvent env cmdline) (startLaunch env st cmdline) events"
  note g = foldl_handleEvent [OF launchInv_start [where st = st and env = env and cmdline = cmdline],
    where env = env and cmdline = cmdline and events = events]
  have r: "runTheCommand env st cmdline = shellNow ?lf"
    by (simp add: runTheCommand_def Spawned)
  from g have "commandLog (shellNow ?lf)
      = commandLog st @ replicate (length (filter pushesEntry events)) (logEntry ?lf)"
    by (simp add: launchInv_def startLaunch_def)
  moreover from g have "raw (command (logEntry ?lf)) = cmdline"
    "entry_id (logEntry ?lf) = generateId env"
    by (simp_all add: startLaunch_def logInit_def Let_def)
  ultimately show ?thesis
    by (intro exI [of _ "logEntry ?lf"]) (simp add: r Spawned)
qed

lemma runTheCommand_history:
  "historyFile (runTheCommand env st cmdline)
     = historyFile st @ replicate (closeEvents (spawnResult env)) cmdline"
proof (cases "spawnResult env")
  case (SpawnThrows err)
  show ?thesis
    by (simp add: runTheCommand_throws [OF SpawnThrows] SpawnThrows)
next
  case (Spawned events)
  note g = foldl_handleEvent [OF launchInv_start [where st = st and env = env and cmdline = cmdline],
    where env = env and cmdline = cmdline and events = events]
  then show ?thesis
    by (simp add: runTheCommand_def Spawned startLaunch_def)
qed

lemma runTheCommand_flushed:
  assumes "failing (spawnResult env)"
  shows "errorFile (runTheCommand env st cmdline)
     = Readable (JSON_stringify (commandLog (runTheCommand env st cmdline)))"
proof (cases "spawnResult env")
  case (SpawnThrows err)
  show ?thesis
    by (simp add: runTheCommand_throws [OF SpawnThrows])
next
  case (Spawned events)
  note g = foldl_handleEvent [OF launchInv_start [where st = st and env = env and cmdline = cmdline],
    where env = env and cmdline = cmdline and events = events]
  with assms show ?thesis
    by (simp add: runTheCommand_def Spawned)
qed

lemma runTheCommand_quiet:
  assumes "entriesLogged (spawnResult env) = 0"
  shows "commandLog (runTheCommand env st cmdline) = commandLog st"
    and "errorFile (runTheCommand env st cmdline) = errorFile st"
proof -
  from assms obtain events where s: "spawnResult env = Spawned events"
    and n: "filter pushesEntry events = []"
    by (cases "spawnResult env") auto
  note g = foldl_handleEvent [OF launchInv_start [where st = st and env = env and cmdline = cmdline],
    where env = env and cmdline = cmdline and events = events]
  from g n show "commandLog (runTheCommand env st cmdline) = commandLog st"
    by (simp add: runTheCommand_def s launchInv_def startLaunch_def)
  from g n show "errorFile (runTheCommand env st cmdline) = errorFile st"
    by (simp add: runTheCommand_def s startLaunch_def)
qed

text \<open>
  What the error handler does when its event arrives, whatever events came before: the
  entry gets the message and the exit code 1 and one more reference in the log, the file
  is flushed with the whole log, and the prompt is called.
\<close>

lemma error_event_handled:
  assumes "spawnResult env = Spawned (events @ [ErrorEvent err])"
  shows "\<exists>e. error (output_info e) = Some (stripAnsi env (message err))
           \<and> exitCode (output_info e) = 1 \<and> raw (command e) = cmdline
           \<and> commandLog (runTheCommand env st cmdline)
                = commandLog st @ replicate (Suc (length (filter pushesEntry events))) e
           \<and> errorFile (runTheCommand env st cmdline)
                = Readable (JSON_stringify (commandLog (runTheCommand env st cmdline)))
           \<and> trace (runTheCommand env st cmdline)
                = trace (runTheCommand (env\<lparr>spawnResult := Spawned events\<rparr>) st cmdline)
                    @ [ConsoleError (chalkRed env (message err)), Prompt]"
proof -
  let ?m = "foldl (handleEvent env cmdline) (startLaunch env st cmdline) events"
  note g = foldl_handleEvent [OF launchInv_start [where st = st and env = env and cmdline = cmdline],
    where env = env and cmdline = cmdline and events = events]
  then have inv: "launchInv (commandLog st) ?m" by blast
  have r: "runTheCommand env st cmdline = shellNow (onError env ?m err)"
    by (simp add: runTheCommand_def assms)
  have r0: "runTheCommand (env\<lparr>spawnResult := Spawned events\<rparr>) st cmdline
      = shellNow (foldl (handleEvent (env\<lparr>spawnResult := Spawned events\<rparr>) cmdline)
          (startLaunch (env\<lparr>spawnResult := Spawned events\<rparr>) st cmdline) events)"
    by (simp add: runTheCommand_def)
  have same: "handleEvent (env\<lparr>spawnResult := Spawned events\<rparr>) cmdline = handleEvent env cmdline"
  proof (intro ext)
    fix l ev show "handleEvent (env\<lparr>spawnResult := Spawned events\<rparr>) cmdline l ev
        = handleEvent env cmdline l ev"
      by (cases ev) (simp_all add: onStderrData_def onError_def)
  qed
  have same0: "startLaunch (env\<lparr>spawnResult := Spawned events\<rparr>) st cmdline = startLaunch env st cmdline"
    by (simp add: startLaunch_def logInit_def)
  from g have c: "raw (command (logEntry ?m)) = cmdline" "pushed ?m = length (filter pushesEntry events)"
    by (simp_all add: startLaunch_def logInit_def Let_def)
  show ?thesis
    by (intro exI [of _ "withError (logEntry ?m) (stripAnsi env (message err))"])
       (simp add: r r0 same same0 onError_eq [OF inv] withError_def c)
qed

text \<open>
  C2.  A command run by the generic execution path whose child closes with a nonzero exit
  code \<open>c\<close> adds exactly one entry to the log, with that exit code and the raw command
  text, and the flushed file holds the log with this entry as its last: one entry more than
  the file held before when the file was in step with the log.  A child that closes with
  code 0 leaves the log and the file as they were and appends the raw command as one new
  line of the history file.  (The flush and the history append are those of
  \<open>saveOutputToFile\<close> and \<open>saveToHistory\<close> as modelled above.)
\<close>

theorem close_event_logging:
  assumes "spawnResult env = Spawned (map StderrData chunks @ [CloseEvent (Some c)])"
  shows "(c \<noteq> 0 \<longrightarrow>
           (\<exists>e. exitCode (output_info e) = c \<and> raw (command e) = cmdline
              \<and> commandLog (runTheCommand env st cmdline) = commandLog st @ [e]
              \<and> errorFile (runTheCommand env st cmdline) = Readable (JSON_stringify (commandLog st @ [e]))
              \<and> persisted (runTheCommand env st cmdline) = commandLog st @ [e]
              \<and> (persisted st = commandLog st \<longrightarrow>
                   persisted (runTheCommand env st cmdline) = persisted st @ [e])))
     \<and> (c = 0 \<longrightarrow>
           commandLog (runTheCommand env st cmdline) = commandLog st
           \<and> errorFile (runTheCommand env st cmdline) = errorFile st
           \<and> persisted (runTheCommand env st cmdline) = persisted st
           \<and> historyFile (runTheCommand env st cmdline) = historyFile st @ [cmdline])"
proof (intro conjI impI)
  assume nz: "c \<noteq> 0"
  let ?e = "closedEntry env st cmdline chunks (Some c)"
  have e: "exitCode (output_info ?e) = c" "raw (command ?e) = cmdline"
    by (simp_all add: closedEntry_def logInit_raw)
  have l: "commandLog (runTheCommand env st cmdline) = commandLog st @ [?e]"
    and f: "errorFile (runTheCommand env st cmdline) = Readable (JSON_stringify (commandLog st @ [?e]))"
    using nz by (simp_all add: runTheCommand_close [OF assms])
  from f have p: "persisted (runTheCommand env st cmdline) = commandLog st @ [?e]"
    by (rule persisted_Readable)
  from e l f p show "\<exists>e. exitCode (output_info e) = c \<and> raw (command e) = cmdline
              \<and> commandLog (runTheCommand env st cmdline) = commandLog st @ [e]
              \<and> errorFile (runTheCommand env st cmdline) = Readable (JSON_stringify (commandLog st @ [e]))
              \<and> persisted (runTheCommand env st cmdline) = commandLog st @ [e]
              \<and> (persisted st = commandLog st \<longrightarrow>
                   persisted (runTheCommand env st cmdline) = persisted st @ [e])"
    by (intro exI [of _ ?e]) simp
next
  assume z: "c = 0"
  then show "commandLog (runTheCommand env st cmdline) = commandLog st"
    and "errorFile (runTheCommand env st cmdline) = errorFile st"
    and "persisted (runTheCommand env st cmdline) = persisted st"
    and "historyFile (runTheCommand env st cmdline) = historyFile st @ [cmdline]"
    by (simp_all add: runTheCommand_close [OF assms] persisted_def)
qed

theorem close_event_logging_witness:
  "spawnResult exampleEnv = Spawned (map StderrData [''oops''] @ [CloseEvent (Some 2)])
   \<and> (2 :: int) \<noteq> 0
   \<and> persisted exampleState = commandLog exampleState
   \<and> (\<exists>e. exitCode (output_info e) = 2 \<and> raw (command e) = ''foo bar''
          \<and> persisted (runTheCommand exampleEnv exampleState ''foo bar'') = persisted exampleState @ [e])
   \<and> spawnResult successEnv = Spawned (map StderrData [] @ [CloseEvent (Some 0)])
   \<and> persisted (runTheCommand successEnv exampleState ''ls'') = persisted exampleState
   \<and> historyFile (runTheCommand successEnv exampleState ''ls'') = [''ls'']"
proof -
  have a: "spawnResult exampleEnv = Spawned (map StderrData [''oops''] @ [CloseEvent (Some 2)])"
    by (simp add: exampleEnv_def)
  have s: "persisted exampleState = commandLog exampleState"
    by (simp add: persisted_def exampleState_def startup_def)
  have h: "historyFile exampleState = []"
    by (simp add: exampleState_def startup_def)
  from close_event_logging [OF a, where st = exampleState and cmdline = "''foo bar''"] s
  have 1: "\<exists>e. exitCode (output_info e) = 2 \<and> raw (command e) = ''foo bar''
          \<and> persisted (runTheCommand exampleEnv exampleState ''foo bar'') = persisted exampleState @ [e]"
    by auto
  have b: "spawnResult successEnv = Spawned (map StderrData [] @ [CloseEvent (Some 0)])"
    by (simp add: successEnv_def)
  from close_event_logging [OF b, where st = exampleState and cmdline = "''ls''"] h
  have 2: "persisted (runTheCommand successEnv exampleState ''ls'') = persisted exampleState"
    "historyFile (runTheCommand successEnv exampleState ''ls'') = [''ls'']"
    by simp_all
  from a s 1 b 2 show ?thesis by simp
qed

text \<open>
  C3.  The error handler does what the claim says at the moment of its event (lemma
  \<open>error_event_handled\<close>), but the close handler is registered on the same child with no
  guard, and a launch that fails emits a close event after its error event.  For such a
  launch the close handler overwrites the exit code 1 with the close code, pushes the same
  entry a second time, flushes again, appends the command to the history and calls the
  prompt a second time: the log ends with two entries with the exit code -2, where the run
  cut after the error event had one entry with the exit code 1.
\<close>

theorem launch_error_then_close:
  "spawnResult launchErrorEnv
     = Spawned [ErrorEvent (JsError ''Error'' ''spawn /bin/sh ENOENT''), CloseEvent (Some (- 2))]
   \<and> map (\<lambda>e. exitCode (output_info e)) (commandLog (runTheCommand launchErrorEnv exampleState ''ls -la''))
       = [- 2, - 2]
   \<and> map (\<lambda>e. error (output_info e)) (commandLog (runTheCommand launchErrorEnv exampleState ''ls -la''))
       = [Some ''spawn /bin/sh ENOENT'', Some ''spawn /bin/sh ENOENT'']
   \<and> persisted (runTheCommand launchErrorEnv exampleState ''ls -la'')
       = commandLog (runTheCommand launchErrorEnv exampleState ''ls -la'')
   \<and> trace (runTheCommand launchErrorEnv exampleState ''ls -la'')
       = [Prompt, ConsoleError ''spawn /bin/sh ENOENT'', Prompt, Prompt]
   \<and> historyFile (runTheCommand launchErrorEnv exampleState ''ls -la'') = [''ls -la'']
   \<and> map (\<lambda>e. exitCode (output_info e))
        (commandLog (runTheCommand
           (launchErrorEnv\<lparr>spawnResult := Spawned [ErrorEvent (JsError ''Error'' ''spawn /bin/sh ENOENT'')]\<rparr>)
           exampleState ''ls -la''))
       = [1]
   \<and> trace (runTheCommand
           (launchErrorEnv\<lparr>spawnResult := Spawned [ErrorEvent (JsError ''Error'' ''spawn /bin/sh ENOENT'')]\<rparr>)
           exampleState ''ls -la'')
       = [Prompt, ConsoleError ''spawn /bin/sh ENOENT'', Prompt]"
proof -
  have a: "spawnResult launchErrorEnv = Spawned (map StderrData []
      @ [ErrorEvent (JsError ''Error'' ''spawn /bin/sh ENOENT''), CloseEvent (Some (- 2))])"
    by (simp add: launchErrorEnv_def)
  have b: "spawnResult (launchErrorEnv\<lparr>spawnResult :=
        Spawned [ErrorEvent (JsError ''Error'' ''spawn /bin/sh ENOENT'')]\<rparr>)
      = Spawned (map StderrData [] @ [ErrorEvent (JsError ''Error'' ''spawn /bin/sh ENOENT'')])"
    by simp
  have c: "commandLog exampleState = []" "trace exampleState = [Prompt]"
    "historyFile exampleState = []"
    by (simp_all add: exampleState_def startup_def loadCommandErrors_def)
  have e: "stripAnsi launchErrorEnv = (\<lambda>s. s)" "chalkRed launchErrorEnv = (\<lambda>s. s)"
    by (simp_all add: launchErrorEnv_def exampleEnv_def)
  show ?thesis
    unfolding runTheCommand_error_close [OF a] runTheCommand_error [OF b]
    by (simp add: c e launchErrorEnv_def exampleEnv_def persisted_def loadCommandErrors_def
        JSON_stringify_def withExit_def erroredEntry_def numeral_2_eq_2)
qed

text \<open>
  C9.  A close event with the code \<open>null\<close> records the exit code 0 in the entry and still
  appends the entry and flushes the file; a close event with the code 0 records the same
  exit code and appends nothing: the check reads the close code, not the recorded one.
\<close>

theorem signal_close_logged:
  assumes "spawnResult env = Spawned (map StderrData chunks @ [CloseEvent None])"
  shows "(\<exists>e. exitCode (output_info e) = 0 \<and> raw (command e) = cmdline
            \<and> commandLog (runTheCommand env st cmdline) = commandLog st @ [e]
            \<and> errorFile (runTheCommand env st cmdline) = Readable (JSON_stringify (commandLog st @ [e]))
            \<and> persisted (runTheCommand env st cmdline) = commandLog st @ [e])
     \<and> commandLog (runTheCommand (env\<lparr>spawnResult := Spawned (map StderrData chunks @ [CloseEvent (Some 0)])\<rparr>) st cmdline)
         = commandLog st
     \<and> errorFile (runTheCommand (env\<lparr>spawnResult := Spawned (map StderrData chunks @ [CloseEvent (Some 0)])\<rparr>) st cmdline)
         = errorFile st"
proof (intro conjI)
  let ?e = "closedEntry env st cmdline chunks None"
  have "exitCode (output_info ?e) = 0" "raw (command ?e) = cmdline"
    by (simp_all add: closedEntry_def logInit_raw)
  moreover have "commandLog (runTheCommand env st cmdline) = commandLog st @ [?e]"
    "errorFile (runTheCommand env st cmdline) = Readable (JSON_stringify (commandLog st @ [?e]))"
    by (simp_all add: runTheCommand_close [OF assms])
  moreover from this have "persisted (runTheCommand env st cmdline) = commandLog st @ [?e]"
    by (simp add: persisted_Readable)
  ultimately show "\<exists>e. exitCode (output_info e) = 0 \<and> raw (command e) = cmdline
            \<and> commandLog (runTheCommand env st cmdline) = commandLog st @ [e]
            \<and> errorFile (runTheCommand env st cmdline) = Readable (JSON_stringify (commandLog st @ [e]))
            \<and> persisted (runTheCommand env st cmdline) = commandLog st @ [e]"
    by (intro exI [of _ ?e]) simp
next
  have s: "spawnResult (env\<lparr>spawnResult := Spawned (map StderrData chunks @ [CloseEvent (Some 0)])\<rparr>)
      = Spawned (map StderrData chunks @ [CloseEvent (Some 0)])" by simp
  show "commandLog (runTheCommand (env\<lparr>spawnResult := Spawned (map StderrData chunks @ [CloseEvent (Some 0)])\<rparr>) st cmdline)
         = commandLog st"
    and "errorFile (runTheCommand (env\<lparr>spawnResult := Spawned (map StderrData chunks @ [CloseEvent (Some 0)])\<rparr>) st cmdline)
         = errorFile st"
    by (simp_all add: runTheCommand_close [OF s])
qed


theorem signal_close_logged_witness:
  "spawnResult signalEnv = Spawned (map StderrData [] @ [CloseEvent None])
   \<and> (\<exists>e. exitCode (output_info e) = 0 \<and> raw (command e) = ''sleep 100''
          \<and> persisted (runTheCommand signalEnv exampleState ''sleep 100'') = [e])"
proof -
  have a: "spawnResult signalEnv = Spawned (map StderrData [] @ [CloseEvent None])"
    by (simp add: signalEnv_def)
  have c: "commandLog exampleState = []"
    by (simp add: exampleState_def startup_def loadCommandErrors_def)
  from signal_close_logged [OF a, where st = exampleState and cmdline = "''sleep 100''"] c
  have "\<exists>e. exitCode (output_info e) = 0 \<and> raw (command e) = ''sleep 100''
          \<and> persisted (runTheCommand signalEnv exampleState ''sleep 100'') = [e]"
    by auto
  with a show ?thesis by blast
qed

subsection \<open>Built-in commands\<close>

lemma checkKey_exists: "apiKeyFile st \<noteq> None \<Longrightarrow> checkKey env st = (True, st)"
  by (simp add: checkKey_def)

lemma run_hp_no_args:
  assumes "checkKey env st = (True, st0)"
  shows "run_hp env st [] =
     st0\<lparr>trace := trace st0 @
        [ConsoleLog ''Hey you did not enter a message.'', Prompt,
         SpinnerStart spinnerText, SpinnerStop, ConsoleLog ''undefined'', Prompt]\<rparr>"
  using assms
  by (simp add: run_hp_def Let_def askGemini_def askOpenAi_def reportAnswer_def shown_def
      sentinel_def prompt_def emit_def)

lemma runShellCommand_hp: "runShellCommand env st ''hp'' = run_hp env st []"
  by (simp add: runShellCommand_def Let_def)

lemma reportAnswer_sentinel:
  "reportAnswer env st (Some sentinel) = emit st (ConsoleLog (unableMessage env))"
  by (simp add: reportAnswer_def)

lemma run_hm_sentinel:
  assumes "checkKey env st = (True, st0)"
    and "(if defaultModel st0 = gemini then generateCommandForHm env
          else generateCommandForHmOpenAi env) = Some sentinel"
  shows "trace (run_hm env st) = trace st0 @
     [SpinnerStart spinnerText, SpinnerStop, ConsoleLog (unableMessage env), Prompt]"
  using assms
  by (auto simp: run_hm_def Let_def askGemini_def askOpenAi_def reportAnswer_sentinel
      prompt_def emit_def split: if_splits)

lemma run_hp_sentinel:
  assumes "checkKey env st = (True, st0)" and "args \<noteq> []" and "join_with '' '' args \<noteq> []"
    and "(if defaultModel st0 = gemini then generateCommandForHp env (join_with '' '' args)
          else generateCommandForHpOpenAi env (join_with '' '' args)) = Some sentinel"
  shows "trace (run_hp env st args) = trace st0 @
     [SpinnerStart spinnerText, SpinnerStop, ConsoleLog (unableMessage env), Prompt]"
  using assms
  by (auto simp: run_hp_def Let_def askGemini_def askOpenAi_def reportAnswer_sentinel
      or_empty_def prompt_def emit_def split: if_splits)

lemma run_he_trace:
  "trace (run_he env st args) = trace st @
     [SpinnerStart spinnerText, SpinnerStop,
      ConsoleLog (shown (if defaultModel st = gemini then betterMan env (join_with '' '' args)
                         else betterManOpenAi env (join_with '' '' args))), Prompt]"
  by (simp add: run_he_def Let_def prompt_def emit_def)

lemma runShellCommand_generic:
  "hd (split_on CHR 0x20 cmdline) \<notin> set builtins \<Longrightarrow>
     runShellCommand env st cmdline = runTheCommand env st cmdline"
  by (simp add: runShellCommand_def builtins_def Let_def)

lemma historyFile_emit: "historyFile (emit st e) = historyFile st"
  by (simp add: emit_def)

lemma historyFile_prompt: "historyFile (prompt st) = historyFile st"
  by (simp add: prompt_def emit_def)

lemma historyFile_checkKey: "historyFile (snd (checkKey env st)) = historyFile st"
  by (simp add: checkKey_def Let_def emit_def split: option.splits)

lemma historyFile_reportAnswer: "historyFile (reportAnswer env st res) = historyFile st"
  by (simp add: reportAnswer_def Let_def emit_def split: option.splits)

lemma historyFile_run_hm: "historyFile (run_hm env st) = historyFile st"
proof -
  obtain ok st0 where k: "checkKey env st = (ok, st0)" by (cases "checkKey env st")
  then have "historyFile st0 = historyFile st"
    using historyFile_checkKey [of env st] by simp
  with k show ?thesis
    by (simp add: run_hm_def Let_def historyFile_prompt historyFile_reportAnswer historyFile_emit)
qed

lemma historyFile_run_hp: "historyFile (run_hp env st args) = historyFile st"
proof -
  obtain ok st0 where k: "checkKey env st = (ok, st0)" by (cases "checkKey env st")
  then have "historyFile st0 = historyFile st"
    using historyFile_checkKey [of env st] by simp
  with k show ?thesis
    by (simp add: run_hp_def Let_def historyFile_prompt historyFile_reportAnswer historyFile_emit)
qed

lemma historyFile_run_he: "historyFile (run_he env st args) = historyFile st"
  by (simp add: run_he_def Let_def historyFile_prompt historyFile_emit)

lemma historyFile_run_switchAI: "historyFile (run_switchAI env st) = historyFile st"
  by (simp add: run_switchAI_def historyFile_prompt historyFile_emit)

text \<open>
  C10.  When \<open>hp\<close> is entered with no argument and the API key check succeeds, the
  handler prints the notice, calls the next prompt, and goes on: the collaborator is asked
  with the empty message, the answer is \<open>undefined\<close>, which is printed and not copied to
  the clipboard, and the next prompt is called a second time.
\<close>

theorem hp_without_message_prompts_twice:
  assumes "checkKey env st = (True, st0)"
  shows "trace (runShellCommand env st ''hp'') = trace st0 @
        [ConsoleLog ''Hey you did not enter a message.'', Prompt,
         SpinnerStart spinnerText, SpinnerStop, ConsoleLog ''undefined'', Prompt]
     \<and> length (filter (\<lambda>e. e = Prompt)
          (drop (length (trace st0)) (trace (runShellCommand env st ''hp'')))) = 2
     \<and> (\<forall>s. ClipboardWrite s \<notin> set (drop (length (trace st0)) (trace (runShellCommand env st ''hp''))))"
  by (simp add: runShellCommand_hp run_hp_no_args [OF assms])

theorem hp_without_message_prompts_twice_witness:
  "checkKey exampleEnv exampleState = (True, exampleState)
   \<and> trace (runShellCommand exampleEnv exampleState ''hp'') =
        [Prompt, ConsoleLog ''Hey you did not enter a message.'', Prompt,
         SpinnerStart ''Processing data...'', SpinnerStop, ConsoleLog ''undefined'', Prompt]"
proof -
  have k: "checkKey exampleEnv exampleState = (True, exampleState)"
    by (rule checkKey_exists) (simp add: exampleState_def startup_def)
  have t: "trace exampleState = [Prompt]"
    by (simp add: exampleState_def startup_def loadCommandErrors_def)
  from hp_without_message_prompts_twice [OF k] t
  have "trace (runShellCommand exampleEnv exampleState ''hp'') =
        [Prompt, ConsoleLog ''Hey you did not enter a message.'', Prompt,
         SpinnerStart ''Processing data...'', SpinnerStop, ConsoleLog ''undefined'', Prompt]"
    by (simp add: spinnerText_def)
  with k show ?thesis by blast
qed

text \<open>
  C5.  In the \<open>hm\<close> and the \<open>hp\<close> branch the sentinel is answered with the fixed message
  and nothing is copied (lemmas \<open>run_hm_sentinel\<close> and \<open>run_hp_sentinel\<close>).  The
  \<open>he\<close> branch has no such check: with a collaborator that returns the sentinel, the
  command \<open>he ls\<close> prints the sentinel itself, where \<open>hm\<close> in the same environment
  prints the fixed message.
\<close>

theorem he_prints_sentinel:
  "trace (runShellCommand sentinelEnv exampleState ''he ls'')
     = [Prompt, SpinnerStart ''Processing data...'', SpinnerStop, ConsoleLog ''3d8a19a704'', Prompt]
   \<and> unableMessage sentinelEnv = '':( Unable to process you request at the moment.''
   \<and> trace (runShellCommand sentinelEnv exampleState ''hm'')
     = [Prompt, SpinnerStart ''Processing data...'', SpinnerStop,
        ConsoleLog '':( Unable to process you request at the moment.'', Prompt]"
  by (simp add: runShellCommand_def run_he_def run_hm_def checkKey_def askGemini_def
      reportAnswer_def unableMessage_def Let_def sentinelEnv_def exampleEnv_def exampleState_def startup_def
      loadCommandErrors_def prompt_def emit_def shown_def sentinel_def spinnerText_def)


text \<open>
  C6 (as amended).  The raw command string is appended to the history file by the built-ins
  \<open>cd\<close> and \<open>cat\<close> and by an externally executed command whose child reaches its
  close event (once for each close event, whether or not an error event came first).  The
  built-ins \<open>history\<close>, \<open>exit\<close>, \<open>switchAI\<close>, \<open>copy\<close>, \<open>hm\<close>, \<open>hp\<close> and
  \<open>he\<close> leave the history file as it was.
\<close>

theorem history_appended_by:
  "(hd (split_on CHR 0x20 cmdline) = ''cd'' \<or> hd (split_on CHR 0x20 cmdline) = ''cat'' \<longrightarrow>
      historyFile (runShellCommand env st cmdline) = historyFile st @ [cmdline])
   \<and> (hd (split_on CHR 0x20 cmdline) \<notin> set builtins \<longrightarrow>
      historyFile (runShellCommand env st cmdline)
        = historyFile st @ replicate (closeEvents (spawnResult env)) cmdline)
   \<and> (hd (split_on CHR 0x20 cmdline) \<notin> set builtins \<and> closeEvents (spawnResult env) = 1 \<longrightarrow>
      historyFile (runShellCommand env st cmdline) = historyFile st @ [cmdline])
   \<and> (hd (split_on CHR 0x20 cmdline)
          \<in> set [''history'', ''exit'', ''switchAI'', ''copy'', ''hm'', ''hp'', ''he''] \<longrightarrow>
      historyFile (runShellCommand env st cmdline) = historyFile st)"
proof (intro conjI impI)
  assume "hd (split_on CHR 0x20 cmdline) = ''cd'' \<or> hd (split_on CHR 0x20 cmdline) = ''cat''"
  then show "historyFile (runShellCommand env st cmdline) = historyFile st @ [cmdline]"
    by (auto simp: runShellCommand_def Let_def saveToHistory_def changeDirectory_def catFile_def
        prompt_def emit_def)
next
  assume "hd (split_on CHR 0x20 cmdline) \<notin> set builtins"
  then show "historyFile (runShellCommand env st cmdline)
        = historyFile st @ replicate (closeEvents (spawnResult env)) cmdline"
    by (simp add: runShellCommand_generic runTheCommand_history)
next
  assume "hd (split_on CHR 0x20 cmdline) \<notin> set builtins \<and> closeEvents (spawnResult env) = 1"
  then show "historyFile (runShellCommand env st cmdline) = historyFile st @ [cmdline]"
    by (simp add: runShellCommand_generic runTheCommand_history)
next
  assume "hd (split_on CHR 0x20 cmdline)
          \<in> set [''history'', ''exit'', ''switchAI'', ''copy'', ''hm'', ''hp'', ''he'']"
  then show "historyFile (runShellCommand env st cmdline) = historyFile st"
    by (auto simp: runShellCommand_def Let_def historyFile_prompt historyFile_emit
        historyFile_run_hm historyFile_run_hp historyFile_run_he historyFile_run_switchAI
        showHistory_def saveOutputToFile_def)
qed

theorem history_appended_by_witness:
  "hd (split_on CHR 0x20 ''cd /tmp'') = ''cd''
   \<and> historyFile (runShellCommand exampleEnv exampleState ''cd /tmp'') = [''cd /tmp'']
   \<and> hd (split_on CHR 0x20 ''ls -la'') \<notin> set builtins
   \<and> closeEvents (spawnResult successEnv) = 1
   \<and> historyFile (runShellCommand successEnv exampleState ''ls -la'') = [''ls -la'']
   \<and> hd (split_on CHR 0x20 ''doesnotexist123'') \<notin> set builtins
   \<and> closeEvents (spawnResult notFoundEnv) = 1
   \<and> historyFile (runShellCommand notFoundEnv exampleState ''doesnotexist123'') = [''doesnotexist123'']
   \<and> closeEvents (spawnResult launchErrorEnv) = 1
   \<and> historyFile (runShellCommand launchErrorEnv exampleState ''ls -la'') = [''ls -la'']
   \<and> hd (split_on CHR 0x20 ''switchAI'')
        \<in> set [''history'', ''exit'', ''switchAI'', ''copy'', ''hm'', ''hp'', ''he'']
   \<and> historyFile (runShellCommand exampleEnv exampleState ''switchAI'') = []"
proof -
  have h: "historyFile exampleState = []"
    by (simp add: exampleState_def startup_def)
  have 1: "hd (split_on CHR 0x20 ''cd /tmp'') = ''cd''" by simp
  have 2: "hd (split_on CHR 0x20 ''ls -la'') \<notin> set builtins" by (simp add: builtins_def)
  have 3: "closeEvents (spawnResult successEnv) = 1" "closeEvents (spawnResult notFoundEnv) = 1"
    "closeEvents (spawnResult launchErrorEnv) = 1"
    by (simp_all add: successEnv_def notFoundEnv_def launchErrorEnv_def)
  have 4: "hd (split_on CHR 0x20 ''switchAI'')
        \<in> set [''history'', ''exit'', ''switchAI'', ''copy'', ''hm'', ''hp'', ''he'']" by simp
  have 5: "hd (split_on CHR 0x20 ''doesnotexist123'') \<notin> set builtins" by (simp add: builtins_def)
  from history_appended_by [where cmdline = "''cd /tmp''" and env = exampleEnv and st = exampleState] 1 h
  have a: "historyFile (runShellCommand exampleEnv exampleState ''cd /tmp'') = [''cd /tmp'']"
    by simp
  from history_appended_by [where cmdline = "''ls -la''" and env = successEnv and st = exampleState] 2 3 h
  have b: "historyFile (runShellCommand successEnv exampleState ''ls -la'') = [''ls -la'']"
    by simp
  from history_appended_by [where cmdline = "''doesnotexist123''" and env = notFoundEnv
      and st = exampleState] 5 3 h
  have c: "historyFile (runShellCommand notFoundEnv exampleState ''doesnotexist123'') = [''doesnotexist123'']"
    by simp
  from history_appended_by [where cmdline = "''ls -la''" and env = launchErrorEnv
      and st = exampleState] 2 3 h
  have d: "historyFile (runShellCommand launchErrorEnv exampleState ''ls -la'') = [''ls -la'']"
    by simp
  from history_appended_by [where cmdline = "''switchAI''" and env = exampleEnv and st = exampleState] 4 h
  have e: "historyFile (runShellCommand exampleEnv exampleState ''switchAI'') = []"
    by simp
  from 1 a 2 3 b 5 c d 4 e show ?thesis by blast
qed

text \<open>
  C6 as stated fails: the \<open>exit\<close> branch only closes the line reader, and the history
  file is left without the command.
\<close>

theorem exit_not_saved_counterexample:
  "historyFile (runShellCommand exampleEnv exampleState ''exit'') = historyFile exampleState
   \<and> historyFile (runShellCommand exampleEnv exampleState ''exit'')
       \<noteq> historyFile exampleState @ [''exit'']
   \<and> trace (runShellCommand exampleEnv exampleState ''exit'') = [Prompt, RlClose]"
  by (simp add: runShellCommand_def Let_def emit_def exampleState_def startup_def
      loadCommandErrors_def)


subsection \<open>The failure log across a restart\<close>

lemma load_stringify: "loadCommandErrors (Readable (JSON_stringify l)) = (l, [])"
  by (simp add: loadCommandErrors_def JSON_stringify_def)

lemma log_emit: "commandLog (emit st e) = commandLog st" "errorFile (emit st e) = errorFile st"
  by (simp_all add: emit_def)

lemma log_prompt: "commandLog (prompt st) = commandLog st" "errorFile (prompt st) = errorFile st"
  by (simp_all add: prompt_def emit_def)

lemma log_checkKey:
  "commandLog (snd (checkKey env st)) = commandLog st"
  "errorFile (snd (checkKey env st)) = errorFile st"
  by (simp_all add: checkKey_def Let_def emit_def split: option.splits)

lemma log_reportAnswer:
  "commandLog (reportAnswer env st res) = commandLog st"
  "errorFile (reportAnswer env st res) = errorFile st"
  by (simp_all add: reportAnswer_def Let_def emit_def split: option.splits)

lemma log_run_hm:
  "commandLog (run_hm env st) = commandLog st" "errorFile (run_hm env st) = errorFile st"
proof -
  obtain ok st0 where k: "checkKey env st = (ok, st0)" by (cases "checkKey env st")
  then have "commandLog st0 = commandLog st" "errorFile st0 = errorFile st"
    using log_checkKey [of env st] by simp_all
  with k show "commandLog (run_hm env st) = commandLog st" "errorFile (run_hm env st) = errorFile st"
    by (simp_all add: run_hm_def Let_def log_prompt log_reportAnswer log_emit)
qed

lemma log_run_hp:
  "commandLog (run_hp env st args) = commandLog st" "errorFile (run_hp env st args) = errorFile st"
proof -
  obtain ok st0 where k: "checkKey env st = (ok, st0)" by (cases "checkKey env st")
  then have "commandLog st0 = commandLog st" "errorFile st0 = errorFile st"
    using log_checkKey [of env st] by simp_all
  with k show "commandLog (run_hp env st args) = commandLog st"
    "errorFile (run_hp env st args) = errorFile st"
    by (simp_all add: run_hp_def Let_def log_prompt log_reportAnswer log_emit)
qed

lemma log_run_he:
  "commandLog (run_he env st args) = commandLog st" "errorFile (run_he env st args) = errorFile st"
  by (simp_all add: run_he_def Let_def log_prompt log_emit)

lemma log_run_switchAI:
  "commandLog (run_switchAI env st) = commandLog st" "errorFile (run_switchAI env st) = errorFile st"
  by (simp_all add: run_switchAI_def log_prompt log_emit)

lemma persisted_startup: "persisted (startup hist errf keyf dir) = commandLog (startup hist errf keyf dir)"
  by (simp add: persisted_def startup_def)

lemma persisted_same_file: "errorFile a = errorFile b \<Longrightarrow> persisted a = persisted b"
  by (simp add: persisted_def)

lemma persisted_runTheCommand:
  assumes "persisted st = commandLog st" and "settled (spawnResult env)"
  shows "persisted (runTheCommand env st cmdline) = commandLog (runTheCommand env st cmdline)"
proof (cases "failing (spawnResult env)")
  case True
  from runTheCommand_flushed [OF this] show ?thesis
    by (rule persisted_Readable)
next
  case False
  with assms(2) have q: "entriesLogged (spawnResult env) = 0" by (simp add: settled_def)
  from runTheCommand_quiet [OF q, of st cmdline] assms(1) show ?thesis
    by (simp add: persisted_same_file [of "runTheCommand env st cmdline" st])
qed

lemma runShellCommand_copy:
  "hd (split_on CHR 0x20 cmdline) = ''copy'' \<Longrightarrow>
     runShellCommand env st cmdline = prompt (saveOutputToFile st (commandLog st))"
  by (simp add: runShellCommand_def Let_def)

lemma log_runShellCommand_quiet:
  assumes "hd (split_on CHR 0x20 cmdline)
     \<in> set [''cd'', ''history'', ''cat'', ''exit'', ''switchAI'', ''hm'', ''hp'', ''he'']"
  shows "commandLog (runShellCommand env st cmdline) = commandLog st"
    and "errorFile (runShellCommand env st cmdline) = errorFile st"
  using assms
  by (auto simp: runShellCommand_def Let_def log_prompt log_emit log_run_hm log_run_hp
      log_run_he log_run_switchAI saveToHistory_def changeDirectory_def catFile_def
      showHistory_def emit_def)

text \<open>
  The log file stays in step with the in-memory log: it is so after the start
  (\<open>persisted_startup\<close>), and every command line keeps it so
  (\<open>persisted_runShellCommand\<close>), the launches being settled: a child that ran and
  closed is, and so is a launch that failed with an error event and then a close event
  with a code other than 0.
\<close>

lemma settled_close: "settled (Spawned (map StderrData chunks @ [CloseEvent code]))"
  by (cases "code = Some 0") (simp_all add: settled_def)

lemma settled_error_close:
  "code \<noteq> Some 0 \<Longrightarrow> settled (Spawned (map StderrData chunks @ [ErrorEvent err, CloseEvent code]))"
  by (simp add: settled_def)

lemma persisted_runShellCommand:
  assumes "persisted st = commandLog st"
    and "hd (split_on CHR 0x20 cmdline) \<in> set builtins \<or> settled (spawnResult env)"
  shows "persisted (runShellCommand env st cmdline) = commandLog (runShellCommand env st cmdline)"
proof -
  consider "hd (split_on CHR 0x20 cmdline) \<notin> set builtins"
    | "hd (split_on CHR 0x20 cmdline) = ''copy''"
    | "hd (split_on CHR 0x20 cmdline)
         \<in> set [''cd'', ''history'', ''cat'', ''exit'', ''switchAI'', ''hm'', ''hp'', ''he'']"
    by (auto simp: builtins_def)
  then show ?thesis
  proof cases
    case 1
    with assms show ?thesis
      by (simp add: runShellCommand_generic persisted_runTheCommand)
  next
    case 2
    have "errorFile (prompt (saveOutputToFile st (commandLog st)))
        = Readable (JSON_stringify (commandLog (prompt (saveOutputToFile st (commandLog st)))))"
      by (simp add: log_prompt saveOutputToFile_def)
    then have "persisted (prompt (saveOutputToFile st (commandLog st)))
        = commandLog (prompt (saveOutputToFile st (commandLog st)))"
      by (rule persisted_Readable)
    with 2 show ?thesis
      by (simp add: runShellCommand_copy)
  next
    case 3
    from log_runShellCommand_quiet [OF this, of env st] assms show ?thesis
      by (simp add: persisted_same_file [of "runShellCommand env st cmdline" st])
  qed
qed

lemma runAll_failing:
  assumes "\<forall>r \<in> set runs. failing (spawnResult (fst r))"
  shows "\<exists>es. commandLog (runAll runs st) = commandLog st @ es
            \<and> map (\<lambda>e. raw (command e)) es
                 = concat (map (\<lambda>r. replicate (entriesLogged (spawnResult (fst r))) (snd r)) runs)
            \<and> map entry_id es
                 = concat (map (\<lambda>r. replicate (entriesLogged (spawnResult (fst r))) (generateId (fst r))) runs)
            \<and> (runs \<noteq> [] \<longrightarrow> errorFile (runAll runs st)
                  = Readable (JSON_stringify (commandLog (runAll runs st))))"
  using assms
proof (induction runs arbitrary: st)
  case Nil
  show ?case by simp
next
  case (Cons r rs)
  let ?st1 = "runTheCommand (fst r) st (snd r)"
  from Cons.prems have f: "failing (spawnResult (fst r))" by simp
  from runTheCommand_entries [of "fst r" st "snd r"] obtain e where
    e: "commandLog ?st1 = commandLog st @ replicate (entriesLogged (spawnResult (fst r))) e"
       "raw (command e) = snd r" "entry_id e = generateId (fst r)"
    by blast
  have fl: "errorFile ?st1 = Readable (JSON_stringify (commandLog ?st1))"
    by (rule runTheCommand_flushed [OF f])
  from Cons.prems have "\<forall>r \<in> set rs. failing (spawnResult (fst r))" by simp
  from Cons.IH [OF this, of ?st1] obtain es where
    es: "commandLog (runAll rs ?st1) = commandLog ?st1 @ es"
        "map (\<lambda>e. raw (command e)) es
           = concat (map (\<lambda>r. replicate (entriesLogged (spawnResult (fst r))) (snd r)) rs)"
        "map entry_id es
           = concat (map (\<lambda>r. replicate (entriesLogged (spawnResult (fst r))) (generateId (fst r))) rs)"
        "rs \<noteq> [] \<longrightarrow> errorFile (runAll rs ?st1)
                  = Readable (JSON_stringify (commandLog (runAll rs ?st1)))"
    by blast
  have flushed: "errorFile (runAll (r # rs) st) = Readable (JSON_stringify (commandLog (runAll (r # rs) st)))"
  proof (cases "rs = []")
    case True
    with fl show ?thesis by simp
  next
    case False
    with es show ?thesis by simp
  qed
  show ?case
    by (intro exI [of _ "replicate (entriesLogged (spawnResult (fst r))) e @ es"])
       (use e es flushed in \<open>simp add: map_replicate\<close>)
qed

lemma concat_singletons:
  "\<forall>r \<in> set runs. n r = Suc 0 \<Longrightarrow> concat (map (\<lambda>r. replicate (n r) (f r)) runs) = map f runs"
  by (induction runs) simp_all

lemma sum_ones: "\<forall>r \<in> set runs. n r = Suc 0 \<Longrightarrow> sum_list (map n runs) = length runs"
  by (induction runs) simp_all

text \<open>
  C8.  After any positive number of failing launches run by the generic execution path, what
  a fresh start loads from the log file is the in-memory log, entry by entry with every
  field: the log as it was before, followed by the entries of the launches, in order, with
  the command's raw text and identifier; one entry per launch when each launch pushes its
  entry once.  A missing file loads as the empty log (no read is attempted, so nothing is
  printed); a file that cannot be read or parsed loads as the empty log, and the exception
  is printed on the console and goes no further.  (The flush is \<open>saveOutputToFile\<close> as
  modelled above, and the file is kept at the level of the JSON document it holds.)
\<close>

theorem failure_log_round_trip:
  assumes "runs \<noteq> []" and "\<forall>r \<in> set runs. failing (spawnResult (fst r))"
  shows "loadCommandErrors (errorFile (runAll runs st)) = (commandLog (runAll runs st), [])
     \<and> commandLog (startup hist (errorFile (runAll runs st)) keyf dir) = commandLog (runAll runs st)
     \<and> take (length (commandLog st)) (commandLog (runAll runs st)) = commandLog st
     \<and> length (commandLog (runAll runs st))
          = length (commandLog st) + sum_list (map (\<lambda>r. entriesLogged (spawnResult (fst r))) runs)
     \<and> map (\<lambda>e. raw (command e)) (drop (length (commandLog st)) (commandLog (runAll runs st)))
          = concat (map (\<lambda>r. replicate (entriesLogged (spawnResult (fst r))) (snd r)) runs)
     \<and> map entry_id (drop (length (commandLog st)) (commandLog (runAll runs st)))
          = concat (map (\<lambda>r. replicate (entriesLogged (spawnResult (fst r))) (generateId (fst r))) runs)
     \<and> ((\<forall>r \<in> set runs. entriesLogged (spawnResult (fst r)) = 1) \<longrightarrow>
          length (commandLog (runAll runs st)) = length (commandLog st) + length runs
          \<and> map (\<lambda>e. raw (command e)) (drop (length (commandLog st)) (commandLog (runAll runs st)))
               = map snd runs
          \<and> map entry_id (drop (length (commandLog st)) (commandLog (runAll runs st)))
               = map (\<lambda>r. generateId (fst r)) runs)
     \<and> loadCommandErrors Missing = ([], [])
     \<and> loadCommandErrors (Readable (Garbled err))
          = ([], [ConsoleError (''Error loading command history: '' @ errorToString err)])
     \<and> loadCommandErrors (Unreadable err)
          = ([], [ConsoleError (''Error loading command history: '' @ errorToString err)])"
proof -
  from runAll_failing [OF assms(2), of st] assms(1) obtain es where
    es: "commandLog (runAll runs st) = commandLog st @ es"
        "map (\<lambda>e. raw (command e)) es
           = concat (map (\<lambda>r. replicate (entriesLogged (spawnResult (fst r))) (snd r)) runs)"
        "map entry_id es
           = concat (map (\<lambda>r. replicate (entriesLogged (spawnResult (fst r))) (generateId (fst r))) runs)"
        "errorFile (runAll runs st) = Readable (JSON_stringify (commandLog (runAll runs st)))"
    by blast
  have "length es = length (map (\<lambda>e. raw (command e)) es)" by simp
  also have "\<dots> = sum_list (map (\<lambda>r. entriesLogged (spawnResult (fst r))) runs)"
    unfolding es(2) by (simp add: length_concat comp_def)
  finally have len: "length es = sum_list (map (\<lambda>r. entriesLogged (spawnResult (fst r))) runs)" .
  have l: "loadCommandErrors (errorFile (runAll runs st)) = (commandLog (runAll runs st), [])"
    unfolding es(4) by (rule load_stringify)
  then have s: "commandLog (startup hist (errorFile (runAll runs st)) keyf dir)
      = commandLog (runAll runs st)"
    by (simp add: startup_def)
  have m: "loadCommandErrors Missing = ([], [])"
    "loadCommandErrors (Readable (Garbled err))
          = ([], [ConsoleError (''Error loading command history: '' @ errorToString err)])"
    "loadCommandErrors (Unreadable err)
          = ([], [ConsoleError (''Error loading command history: '' @ errorToString err)])"
    by (simp_all add: loadCommandErrors_def)
  have one: "(\<forall>r \<in> set runs. entriesLogged (spawnResult (fst r)) = 1) \<longrightarrow>
          length (commandLog (runAll runs st)) = length (commandLog st) + length runs
          \<and> map (\<lambda>e. raw (command e)) (drop (length (commandLog st)) (commandLog (runAll runs st)))
               = map snd runs
          \<and> map entry_id (drop (length (commandLog st)) (commandLog (runAll runs st)))
               = map (\<lambda>r. generateId (fst r)) runs"
  proof
    assume "\<forall>r \<in> set runs. entriesLogged (spawnResult (fst r)) = 1"
    then have o: "\<forall>r \<in> set runs. entriesLogged (spawnResult (fst r)) = Suc 0" by simp
    from es(1-3) len show "length (commandLog (runAll runs st)) = length (commandLog st) + length runs
          \<and> map (\<lambda>e. raw (command e)) (drop (length (commandLog st)) (commandLog (runAll runs st)))
               = map snd runs
          \<and> map entry_id (drop (length (commandLog st)) (commandLog (runAll runs st)))
               = map (\<lambda>r. generateId (fst r)) runs"
      by (simp add: concat_singletons [OF o] sum_ones [OF o])
  qed
  from l s m es(1-3) len one show ?thesis by simp
qed

theorem failure_log_round_trip_witness:
  "[(exampleEnv, ''foo bar''), (notFoundEnv, ''doesnotexist123''), (launchErrorEnv, ''ls -la'')] \<noteq> []
   \<and> failing (spawnResult exampleEnv) \<and> failing (spawnResult notFoundEnv)
   \<and> failing (spawnResult launchErrorEnv)
   \<and> commandLog (startup [] (errorFile
          (runAll [(exampleEnv, ''foo bar''), (notFoundEnv, ''doesnotexist123''), (launchErrorEnv, ''ls -la'')]
             exampleState)) None ''/home/user'')
       = commandLog (runAll [(exampleEnv, ''foo bar''), (notFoundEnv, ''doesnotexist123''),
            (launchErrorEnv, ''ls -la'')] exampleState)
   \<and> map (\<lambda>e. raw (command e))
        (commandLog (runAll [(exampleEnv, ''foo bar''), (notFoundEnv, ''doesnotexist123''),
            (launchErrorEnv, ''ls -la'')] exampleState))
       = [''foo bar'', ''doesnotexist123'', ''ls -la'', ''ls -la'']
   \<and> entriesLogged (spawnResult exampleEnv) = 1 \<and> entriesLogged (spawnResult notFoundEnv) = 1
   \<and> map (\<lambda>e. raw (command e))
        (commandLog (runAll [(exampleEnv, ''foo bar''), (notFoundEnv, ''doesnotexist123'')] exampleState))
       = [''foo bar'', ''doesnotexist123'']
   \<and> map (\<lambda>e. exitCode (output_info e))
        (commandLog (runAll [(exampleEnv, ''foo bar''), (notFoundEnv, ''doesnotexist123'')] exampleState))
       = [2, 127]"
proof -
  let ?runs = "[(exampleEnv, ''foo bar''), (notFoundEnv, ''doesnotexist123''), (launchErrorEnv, ''ls -la'')]"
  let ?two = "[(exampleEnv, ''foo bar''), (notFoundEnv, ''doesnotexist123'')]"
  have n: "?runs \<noteq> []" "?two \<noteq> []" by simp_all
  have f: "failing (spawnResult exampleEnv)" "failing (spawnResult notFoundEnv)"
    "failing (spawnResult launchErrorEnv)"
    by (simp_all add: exampleEnv_def notFoundEnv_def launchErrorEnv_def)
  have o: "entriesLogged (spawnResult exampleEnv) = 1" "entriesLogged (spawnResult notFoundEnv) = 1"
    "entriesLogged (spawnResult launchErrorEnv) = 2"
    by (simp_all add: exampleEnv_def notFoundEnv_def launchErrorEnv_def)
  from f have a: "\<forall>r \<in> set ?runs. failing (spawnResult (fst r))"
    and a2: "\<forall>r \<in> set ?two. failing (spawnResult (fst r))" by simp_all
  have c: "commandLog exampleState = []"
    by (simp add: exampleState_def startup_def loadCommandErrors_def)
  from failure_log_round_trip [OF n(1) a, where st = exampleState and hist = "[]" and keyf = None
      and dir = "''/home/user''"] c o
  have 1: "commandLog (startup [] (errorFile (runAll ?runs exampleState)) None ''/home/user'')
       = commandLog (runAll ?runs exampleState)"
    and 2: "map (\<lambda>e. raw (command e)) (commandLog (runAll ?runs exampleState))
       = [''foo bar'', ''doesnotexist123'', ''ls -la'', ''ls -la'']"
    by (simp_all add: numeral_2_eq_2)
  from failure_log_round_trip [OF n(2) a2, where st = exampleState and hist = "[]" and keyf = None
      and dir = "''/home/user''"] c o
  have 3: "map (\<lambda>e. raw (command e)) (commandLog (runAll ?two exampleState))
       = [''foo bar'', ''doesnotexist123'']"
    by simp
  have s1: "spawnResult exampleEnv = Spawned (map StderrData [''oops''] @ [CloseEvent (Some 2)])"
    by (simp add: exampleEnv_def)
  have s2: "spawnResult notFoundEnv
      = Spawned (map StderrData [''/bin/sh: 1: doesnotexist123: not found''] @ [CloseEvent (Some 127)])"
    by (simp add: notFoundEnv_def)
  have 4: "map (\<lambda>e. exitCode (output_info e)) (commandLog (runAll ?two exampleState)) = [2, 127]"
    by (simp add: runTheCommand_close [OF s1] runTheCommand_close [OF s2] c closedEntry_def)
  from n(1) f 1 2 o(1,2) 3 4 show ?thesis by blast
qed

end
